theory Spec2Isabelle
  imports Complex_Main
begin

section \<open>Python values, dictionaries and errors\<close>

text \<open>
  The service is one Python module, \<^verbatim>\<open>trial.py\<close>. A request body is JSON, so a
  telemetry reading is a dictionary from field names to JSON values. Conventions of the
  embedding:
  \<^item> a Python \<^verbatim>\<open>str\<close> is a \<^typ>\<open>string\<close> holding its UTF-8 bytes; the degree sign
    is the two bytes \<open>0xC2 0xB0\<close>. Case folding and white space are the ASCII ones;
  \<^item> a Python \<^verbatim>\<open>float\<close> is an exact real number or one of the three special values
    a float literal can denote. Binary rounding and overflow of finite values are not
    represented;
  \<^item> a dictionary is an association list, read with \<^const>\<open>map_of\<close>;
  \<^item> every exception the code can raise is a value of \<open>pyerr\<close>, and a function that
    can raise returns \<open>pyerr + 'a\<close>.
\<close>

datatype pyval =
    VNone
  | VBool bool
  | VInt int
  | VFloat real
  | VStr string
  | VList "pyval list"
  | VDict "(string \<times> pyval) list"

type_synonym dict = "(string \<times> pyval) list"

datatype pyerr =
    IndexError
  | AttributeError
  | TypeError
  | ValueError
  | OverflowError
  | KeyError
  | InvalidId
  | NotFound
  | StoreFailure

datatype pyfloat = Fin real | PosInf | NegInf | NaN

definition dict_has :: "dict \<Rightarrow> string \<Rightarrow> bool" where
  \<comment> \<open>\<^verbatim>\<open>k in d\<close>\<close>
  "dict_has d k = (map_of d k \<noteq> None)"

definition dict_get :: "dict \<Rightarrow> string \<Rightarrow> pyval \<Rightarrow> pyval" where
  \<comment> \<open>\<^verbatim>\<open>d.get(k, default)\<close>\<close>
  "dict_get d k dflt = (case map_of d k of None \<Rightarrow> dflt | Some v \<Rightarrow> v)"

fun dict_set :: "string \<Rightarrow> pyval \<Rightarrow> dict \<Rightarrow> dict" where
  \<comment> \<open>\<^verbatim>\<open>d[k] = v\<close>: overwrite in place, or append a new key\<close>
  "dict_set k v [] = [(k, v)]"
| "dict_set k v (p # ps) = (if fst p = k then (k, v) # ps else p # dict_set k v ps)"

definition bind :: "pyerr + 'a \<Rightarrow> ('a \<Rightarrow> pyerr + 'b) \<Rightarrow> pyerr + 'b" where
  "bind m f = (case m of Inl e \<Rightarrow> Inl e | Inr x \<Rightarrow> f x)"

section \<open>String operations\<close>

fun starts_with :: "string \<Rightarrow> string \<Rightarrow> bool" where
  \<comment> \<open>\<^verbatim>\<open>s.startswith(p)\<close>, with the prefix as first argument\<close>
  "starts_with [] s = True"
| "starts_with (p # ps) [] = False"
| "starts_with (p # ps) (c # cs) = (p = c \<and> starts_with ps cs)"

fun py_in :: "string \<Rightarrow> string \<Rightarrow> bool" where
  \<comment> \<open>\<^verbatim>\<open>needle in hay\<close> on strings\<close>
  "py_in needle [] = (needle = [])"
| "py_in needle (c # cs) = (starts_with needle (c # cs) \<or> py_in needle cs)"

function py_replace :: "string \<Rightarrow> string \<Rightarrow> string \<Rightarrow> string" where
  \<comment> \<open>\<^verbatim>\<open>s.replace(old, new)\<close> for a non-empty \<open>old\<close>: every occurrence, left to right\<close>
  "py_replace old new [] = []"
| "py_replace old new (c # cs) =
     (if old \<noteq> [] \<and> starts_with old (c # cs)
      then new @ py_replace old new (drop (length old) (c # cs))
      else c # py_replace old new cs)"
  by pat_completeness auto
termination
  by (relation "measure (\<lambda>(old, new, s). length s)") auto

definition lower_char :: "char \<Rightarrow> char" where
  "lower_char c =
     (let n = (of_char c :: nat) in if 65 \<le> n \<and> n \<le> 90 then char_of (n + 32) else c)"

definition py_lower :: "string \<Rightarrow> string" where
  \<comment> \<open>\<^verbatim>\<open>s.lower()\<close>\<close>
  "py_lower s = map lower_char s"

definition is_space :: "char \<Rightarrow> bool" where
  \<comment> \<open>the ASCII characters Python counts as white space: space, tab to carriage return,
      and the four separators\<close>
  "is_space c =
     (let n = (of_char c :: nat) in n = 32 \<or> (9 \<le> n \<and> n \<le> 13) \<or> (28 \<le> n \<and> n \<le> 31))"

definition py_strip :: "string \<Rightarrow> string" where
  "py_strip s = rev (dropWhile is_space (rev (dropWhile is_space s)))"

fun py_split :: "string \<Rightarrow> string \<Rightarrow> string list" where
  \<comment> \<open>\<^verbatim>\<open>s.split()\<close>: the maximal runs of non-space characters; the first argument
      is the token being read\<close>
  "py_split tok [] = (if tok = [] then [] else [tok])"
| "py_split tok (c # cs) =
     (if is_space c then (if tok = [] then py_split [] cs else tok # py_split [] cs)
      else py_split (tok @ [c]) cs)"

fun join :: "string \<Rightarrow> string list \<Rightarrow> string" where
  \<comment> \<open>\<^verbatim>\<open>sep.join(xs)\<close>\<close>
  "join sep [] = []"
| "join sep [x] = x"
| "join sep (x # y # ys) = x @ sep @ join sep (y # ys)"

definition digit_char :: "nat \<Rightarrow> char" where
  "digit_char d = ''0123456789'' ! d"

fun show_nat :: "nat \<Rightarrow> string" where
  "show_nat n = (if n < 10 then [digit_char n] else show_nat (n div 10) @ [digit_char (n mod 10)])"

definition show_int :: "int \<Rightarrow> string" where
  \<comment> \<open>\<^verbatim>\<open>str(i)\<close> for an \<^verbatim>\<open>int\<close>\<close>
  "show_int i = (if i < 0 then CHR ''-'' # show_nat (nat (- i)) else show_nat (nat i))"

definition pad2 :: "nat \<Rightarrow> string" where
  \<comment> \<open>a two-digit, zero-padded field of \<^verbatim>\<open>strftime\<close>\<close>
  "pad2 n = [digit_char (n div 10 mod 10), digit_char (n mod 10)]"

section \<open>Reading a float\<close>

definition digit_of :: "char \<Rightarrow> nat option" where
  "digit_of c = (let n = (of_char c :: nat) in if 48 \<le> n \<and> n \<le> 57 then Some (n - 48) else None)"

fun digitpart :: "string \<Rightarrow> nat list \<times> string" where
  \<comment> \<open>\<^verbatim>\<open>digit (["_"] digit)*\<close>: the digits read and the rest of the input\<close>
  "digitpart [] = ([], [])"
| "digitpart (c # cs) =
     (case digit_of c of
        None \<Rightarrow> ([], c # cs)
      | Some d \<Rightarrow>
          (case cs of
             u # c' # cs' \<Rightarrow>
               if u = CHR ''_'' \<and> digit_of c' \<noteq> None
               then (case digitpart (c' # cs') of (ds, r) \<Rightarrow> (d # ds, r))
               else (case digitpart cs of (ds, r) \<Rightarrow> (d # ds, r))
           | _ \<Rightarrow> (case digitpart cs of (ds, r) \<Rightarrow> (d # ds, r))))"

definition nat_of_digits :: "nat list \<Rightarrow> nat" where
  "nat_of_digits ds = foldl (\<lambda>acc d. 10 * acc + d) 0 ds"

definition read_sign :: "string \<Rightarrow> bool \<times> string" where
  \<comment> \<open>an optional sign: whether it is a minus, and the rest\<close>
  "read_sign s =
     (case s of
        c # cs \<Rightarrow> if c = CHR ''-'' then (True, cs) else if c = CHR ''+'' then (False, cs) else (False, s)
      | [] \<Rightarrow> (False, s))"

definition read_exponent :: "string \<Rightarrow> int option" where
  \<comment> \<open>what follows the mantissa: nothing, or \<^verbatim>\<open>("e" | "E") [sign] digitpart\<close>\<close>
  "read_exponent s =
     (case s of
        [] \<Rightarrow> Some 0
      | c # cs \<Rightarrow>
          if c = CHR ''e'' \<or> c = CHR ''E''
          then (case read_sign cs of (neg, r) \<Rightarrow>
                  (case digitpart r of (ds, r') \<Rightarrow>
                     if ds = [] \<or> r' \<noteq> [] then None
                     else Some (if neg then - int (nat_of_digits ds) else int (nat_of_digits ds))))
          else None)"

definition read_number :: "string \<Rightarrow> real option" where
  \<comment> \<open>\<^verbatim>\<open>([digitpart] "." digitpart | digitpart ["."]) [exponent]\<close>\<close>
  "read_number s =
     (case digitpart s of (ip, r1) \<Rightarrow>
        (case (case r1 of
                 c # cs \<Rightarrow> if c = CHR ''.'' then digitpart cs else ([], r1)
               | [] \<Rightarrow> ([], r1)) of (fp, r2) \<Rightarrow>
           if ip = [] \<and> fp = [] then None
           else (case read_exponent r2 of
                   None \<Rightarrow> None
                 | Some e \<Rightarrow>
                     Some ((real (nat_of_digits ip) + real (nat_of_digits fp) / 10 ^ length fp)
                           * (if e < 0 then 1 / 10 ^ nat (- e) else 10 ^ nat e)))))"

definition float_of_str :: "string \<Rightarrow> pyerr + pyfloat" where
  \<comment> \<open>\<^verbatim>\<open>float(s)\<close> for a \<^verbatim>\<open>str\<close>: surrounding white space is dropped, then an optional
      sign and a number, \<^verbatim>\<open>inf\<close>, \<^verbatim>\<open>infinity\<close> or \<^verbatim>\<open>nan\<close> in any case\<close>
  "float_of_str s =
     (case read_sign (py_strip s) of (neg, body) \<Rightarrow>
        if py_lower body = ''inf'' \<or> py_lower body = ''infinity''
        then Inr (if neg then NegInf else PosInf)
        else if py_lower body = ''nan'' then Inr NaN
        else (case read_number body of
                None \<Rightarrow> Inl ValueError
              | Some r \<Rightarrow> Inr (Fin (if neg then - r else r))))"

definition py_float :: "pyval \<Rightarrow> pyerr + pyfloat" where
  \<comment> \<open>\<^verbatim>\<open>float(v)\<close>\<close>
  "py_float v =
     (case v of
        VInt i \<Rightarrow> Inr (Fin (real_of_int i))
      | VFloat r \<Rightarrow> Inr (Fin r)
      | VBool b \<Rightarrow> Inr (Fin (if b then 1 else 0))
      | VStr s \<Rightarrow> float_of_str s
      | _ \<Rightarrow> Inl TypeError)"

section \<open>Float arithmetic against a finite operand\<close>

fun fl_gt :: "pyfloat \<Rightarrow> real \<Rightarrow> bool" where
  \<comment> \<open>\<^verbatim>\<open>x > c\<close>\<close>
  "fl_gt (Fin r) c = (r > c)"
| "fl_gt PosInf c = True"
| "fl_gt NegInf c = False"
| "fl_gt NaN c = False"

fun fl_add :: "pyfloat \<Rightarrow> real \<Rightarrow> pyfloat" where
  \<comment> \<open>\<^verbatim>\<open>x + c\<close>\<close>
  "fl_add (Fin r) c = Fin (r + c)"
| "fl_add x c = x"

fun fl_sub :: "pyfloat \<Rightarrow> real \<Rightarrow> pyfloat" where
  \<comment> \<open>\<^verbatim>\<open>x - c\<close>\<close>
  "fl_sub (Fin r) c = Fin (r - c)"
| "fl_sub x c = x"

fun fl_rsub :: "real \<Rightarrow> pyfloat \<Rightarrow> pyfloat" where
  \<comment> \<open>\<^verbatim>\<open>c - x\<close>\<close>
  "fl_rsub c (Fin r) = Fin (c - r)"
| "fl_rsub c PosInf = NegInf"
| "fl_rsub c NegInf = PosInf"
| "fl_rsub c NaN = NaN"

fun fl_mul :: "pyfloat \<Rightarrow> real \<Rightarrow> pyfloat" where
  \<comment> \<open>\<^verbatim>\<open>x * c\<close> for a positive \<open>c\<close>\<close>
  "fl_mul (Fin r) c = Fin (r * c)"
| "fl_mul x c = x"

fun fl_div :: "pyfloat \<Rightarrow> real \<Rightarrow> pyfloat" where
  \<comment> \<open>\<^verbatim>\<open>x / c\<close> for a positive \<open>c\<close>\<close>
  "fl_div (Fin r) c = Fin (r / c)"
| "fl_div x c = x"

definition fl_max0 :: "pyfloat \<Rightarrow> pyfloat" where
  \<comment> \<open>\<^verbatim>\<open>max(0, x)\<close>: the second argument wins only when it compares greater\<close>
  "fl_max0 x = (if fl_gt x 0 then x else Fin 0)"

definition trunc :: "real \<Rightarrow> int" where
  \<comment> \<open>rounding toward zero\<close>
  "trunc r = (if r < 0 then \<lceil>r\<rceil> else \<lfloor>r\<rfloor>)"

fun py_int :: "pyfloat \<Rightarrow> pyerr + int" where
  \<comment> \<open>\<^verbatim>\<open>int(x)\<close> for a float\<close>
  "py_int (Fin r) = Inr (trunc r)"
| "py_int PosInf = Inl OverflowError"
| "py_int NegInf = Inl OverflowError"
| "py_int NaN = Inl ValueError"

definition num_of :: "pyval \<Rightarrow> real option" where
  \<comment> \<open>the numeric value of an \<^verbatim>\<open>int\<close>, \<^verbatim>\<open>float\<close> or \<^verbatim>\<open>bool\<close>\<close>
  "num_of v =
     (case v of
        VInt i \<Rightarrow> Some (real_of_int i)
      | VFloat r \<Rightarrow> Some r
      | VBool b \<Rightarrow> Some (if b then 1 else 0)
      | _ \<Rightarrow> None)"

definition py_lt :: "pyval \<Rightarrow> real \<Rightarrow> pyerr + bool" where
  \<comment> \<open>\<^verbatim>\<open>v < c\<close> against a number: a \<^verbatim>\<open>str\<close>, \<^verbatim>\<open>None\<close>, list or dict raises\<close>
  "py_lt v c = (case num_of v of None \<Rightarrow> Inl TypeError | Some r \<Rightarrow> Inr (r < c))"

section \<open>Data model\<close>

text \<open>
  An issue and the component health are the dictionaries the evaluation builds; a snapshot
  is a document of the collection \<^verbatim>\<open>maintenance_workflow\<close> with exactly the fields
  \<^verbatim>\<open>run_maintenance\<close> writes, the only writer of that collection.
\<close>

record issue =
  name :: string
  severity :: string
  confidence :: real
  recommended_action :: string

record component_health =
  engineHealth :: pyfloat
  battery :: int
  brakes :: int
  tirePressure :: string

record datetime =
  year :: nat
  month :: nat
  day :: nat
  hour :: nat
  minute :: nat
  second :: nat
  microsecond :: nat

record history_entry =
  timestamp :: datetime
  h_telemetry :: dict
  h_issues :: "issue list"

record snapshot =
  vehicle_id :: string
  telemetry :: dict
  issues :: "issue list"
  component_health :: component_health
  overall_health_score :: int
  diagnosis_summary :: string
  customer_friendly_message :: string
  predicted_schedule :: string
  feedback :: string
  last_updated :: datetime
  history :: "history_entry list"

record appointment =
  oid :: nat
  a_vehicle_id :: string
  service_type :: string
  date :: string
  time :: string
  status :: string
  recommended_by_ai :: bool
  created_at :: datetime
  updated_at :: "datetime option"

record report =
  r_issues :: "issue list"
  anomalies :: "issue list"
  health_score :: int
  r_diagnosis_summary :: string
  customer_message :: string
  schedule :: string
  r_feedback :: string

datatype response =
    Reply string  \<comment> \<open>the dictionary with the single key \<^verbatim>\<open>customer_message\<close>\<close>
  | Report report

record telemetry_request =
  data :: "dict list"

text \<open>
  The database holds the two collections and the counter from which the driver draws the
  identifier of an inserted appointment. What a request finds outside the program is its
  environment: the clock, whether the database answers during the request, and Python's
  \<^verbatim>\<open>str\<close> on a value that is not a \<^verbatim>\<open>str\<close>.
\<close>

record db =
  workflow_collection :: "snapshot list"
  appointment_collection :: "appointment list"
  next_oid :: nat

record env =
  utcnow :: datetime
  store_up :: bool
  str_of :: "pyval \<Rightarrow> string"

definition FIXED_VEHICLE_ID :: string where
  "FIXED_VEHICLE_ID = ''V101''"

definition deg_C :: string where
  \<comment> \<open>the unit suffix: a degree sign and the letter C\<close>
  "deg_C = [CHR 0xC2, CHR 0xB0, CHR ''C'']"

definition em_dash :: string where
  "em_dash = [CHR 0xE2, CHR 0x80, CHR 0x94]"

section \<open>The collections\<close>

text \<open>
  A collection is the list of its documents in the order of insertion, and it keeps each
  document as it was written. Every operation fails as a whole when the database does not
  answer, and changes nothing then.
\<close>

definition find_one_workflow :: "env \<Rightarrow> db \<Rightarrow> string \<Rightarrow> pyerr + snapshot option" where
  \<comment> \<open>\<^verbatim>\<open>workflow_collection.find_one({"vehicle_id": vid})\<close>\<close>
  "find_one_workflow e d vid =
     (if store_up e then Inr (find (\<lambda>doc. vehicle_id doc = vid) (workflow_collection d))
      else Inl StoreFailure)"

fun replace_first :: "('a \<Rightarrow> bool) \<Rightarrow> 'a \<Rightarrow> 'a list \<Rightarrow> 'a list" where
  \<comment> \<open>the first matching document is replaced; without a match the new one is inserted\<close>
  "replace_first P new [] = [new]"
| "replace_first P new (x # xs) = (if P x then new # xs else x # replace_first P new xs)"

definition replace_one_workflow :: "env \<Rightarrow> db \<Rightarrow> string \<Rightarrow> snapshot \<Rightarrow> pyerr + db" where
  \<comment> \<open>\<^verbatim>\<open>workflow_collection.replace_one({"vehicle_id": vid}, doc, upsert=True)\<close>\<close>
  "replace_one_workflow e d vid doc =
     (if store_up e
      then Inr (d\<lparr>workflow_collection :=
                   replace_first (\<lambda>x. vehicle_id x = vid) doc (workflow_collection d)\<rparr>)
      else Inl StoreFailure)"

definition find_one_appointment ::
  "env \<Rightarrow> db \<Rightarrow> string \<Rightarrow> string \<Rightarrow> string \<Rightarrow> string \<Rightarrow> pyerr + appointment option" where
  \<comment> \<open>\<^verbatim>\<open>find_one\<close> on the four fields of the duplicate check\<close>
  "find_one_appointment e d vid dt tm st =
     (if store_up e
      then Inr (find (\<lambda>a. a_vehicle_id a = vid \<and> date a = dt \<and> time a = tm \<and> status a = st)
                  (appointment_collection d))
      else Inl StoreFailure)"

definition insert_one_appointment ::
  "env \<Rightarrow> db \<Rightarrow> string \<Rightarrow> string \<Rightarrow> string \<Rightarrow> string \<Rightarrow> string \<Rightarrow> bool \<Rightarrow> datetime \<Rightarrow> pyerr + db" where
  \<comment> \<open>\<^verbatim>\<open>insert_one\<close>: the document gets a fresh \<^verbatim>\<open>_id\<close> and no \<^verbatim>\<open>updated_at\<close>\<close>
  "insert_one_appointment e d vid svc dt tm st ai created =
     (if store_up e
      then Inr (d\<lparr>appointment_collection := appointment_collection d @
                     [\<lparr>oid = next_oid d, a_vehicle_id = vid, service_type = svc, date = dt,
                       time = tm, status = st, recommended_by_ai = ai, created_at = created,
                       updated_at = None\<rparr>],
                   next_oid := Suc (next_oid d)\<rparr>)
      else Inl StoreFailure)"

section \<open>Threshold rules and health scores\<close>

fun calculate_brake_health :: "pyval \<Rightarrow> pyerr + int" where
  \<comment> \<open>the argument is \<^verbatim>\<open>telemetry.get("vibration")\<close>: \<^verbatim>\<open>None\<close> when the key is absent\<close>
  "calculate_brake_health VNone = Inr 75"
| "calculate_brake_health vibration =
     bind (py_lt vibration 3) (\<lambda>b3. if b3 then Inr 95 else
     bind (py_lt vibration 5) (\<lambda>b5. if b5 then Inr 80 else
     bind (py_lt vibration 7) (\<lambda>b7. if b7 then Inr 65 else Inr 40)))"

definition engine_high :: issue where
  "engine_high = \<lparr>name = ''Engine Temperature High'', severity = ''high'',
     confidence = 0.9, recommended_action = ''Check cooling system''\<rparr>"

definition oil_low :: issue where
  "oil_low = \<lparr>name = ''Oil Pressure Low'', severity = ''high'',
     confidence = 0.85, recommended_action = ''Check oil level''\<rparr>"

definition battery_low :: issue where
  "battery_low = \<lparr>name = ''Battery Voltage Low'', severity = ''medium'',
     confidence = 0.75, recommended_action = ''Recharge or replace battery''\<rparr>"

definition tire_low :: issue where
  "tire_low = \<lparr>name = ''Tire Pressure Low'', severity = ''medium'',
     confidence = 0.7, recommended_action = ''Inflate tires''\<rparr>"

definition read_engine_temp :: "dict \<Rightarrow> pyerr + pyfloat" where
  \<comment> \<open>\<^verbatim>\<open>float(telemetry.get("engineTemp", "90").replace("\<dots>C", ""))\<close>: only a
      \<^verbatim>\<open>str\<close> has \<^verbatim>\<open>replace\<close>\<close>
  "read_engine_temp t =
     (case dict_get t ''engineTemp'' (VStr ''90'') of
        VStr s \<Rightarrow> float_of_str (py_replace deg_C [] s)
      | _ \<Rightarrow> Inl AttributeError)"

definition detect_issues :: "dict \<Rightarrow> pyfloat \<Rightarrow> pyerr + issue list" where
  \<comment> \<open>the four rules in the order of the source, each appending to \<open>issues\<close>\<close>
  "detect_issues t engine_temp =
     (let issues0 = [];
          issues1 = (if fl_gt engine_temp 100 then issues0 @ [engine_high] else issues0)
      in bind (py_lt (dict_get t ''oilPressure'' (VInt 30)) 20) (\<lambda>oil.
         let issues2 = (if oil then issues1 @ [oil_low] else issues1)
         in bind (py_lt (dict_get t ''batteryVoltage'' (VFloat 12.6)) 12) (\<lambda>bat.
            let issues3 = (if bat then issues2 @ [battery_low] else issues2)
            in bind (py_lt (dict_get t ''tirePressure'' (VInt 32)) 30) (\<lambda>tire.
               Inr (if tire then issues3 @ [tire_low] else issues3)))))"

definition diagnosis_text_of :: "issue list \<Rightarrow> string" where
  "diagnosis_text_of is =
     (if is \<noteq> [] then join '', '' (map (\<lambda>i. name i @ '' '' @ em_dash @ '' '' @ severity i) is)
      else ''No issues detected.'')"

definition customer_message_of :: "issue list \<Rightarrow> string" where
  "customer_message_of is =
     (if is \<noteq> []
      then foldl (\<lambda>msg i. msg @ name i @ '' ('' @ severity i @ ''): '' @ recommended_action i @ ''. '')
             [] is
      else ''Everything is normal.'')"

definition compute_component_health :: "dict \<Rightarrow> pyfloat \<Rightarrow> pyerr + component_health" where
  \<comment> \<open>the four entries are evaluated in the order they are written\<close>
  "compute_component_health t engine_temp =
     (let eh = fl_max0 (fl_rsub 100 (fl_mul (fl_sub engine_temp 90) 2))
      in bind (py_float (dict_get t ''batteryVoltage'' (VFloat 12.6))) (\<lambda>bv.
         bind (py_int (fl_mul (fl_div bv 12.6) 100)) (\<lambda>bat.
         bind (calculate_brake_health (dict_get t ''vibration'' VNone)) (\<lambda>br.
         bind (py_lt (dict_get t ''tirePressure'' (VInt 30)) 30) (\<lambda>low.
         Inr \<lparr>engineHealth = eh, battery = bat, brakes = br,
              tirePressure = (if low then ''Low'' else ''Normal'')\<rparr>)))))"

definition compute_overall_health :: "component_health \<Rightarrow> pyerr + int" where
  "compute_overall_health ch =
     py_int (fl_div
       (fl_add (fl_add (fl_add (engineHealth ch) (real_of_int (battery ch)))
                  (real_of_int (brakes ch)))
          (if tirePressure ch = ''Normal'' then 100 else 70))
       4)"

definition schedule_text_of :: "issue list \<Rightarrow> string" where
  "schedule_text_of is = (if is \<noteq> [] then ''Tomorrow 10 AM'' else ''No appointment needed'')"

definition feedback_of :: "issue list \<Rightarrow> string" where
  "feedback_of is =
     (if is \<noteq> [] then ''Immediate maintenance recommended due to detected issues.''
      else ''System operating normally.'')"

section \<open>The handler \<^verbatim>\<open>run_maintenance\<close>\<close>

definition telemetry_keys :: "string list" where
  "telemetry_keys = [''engineTemp'', ''oilPressure'', ''batteryVoltage'', ''tirePressure'']"

definition format_val :: "env \<Rightarrow> pyval \<Rightarrow> string" where
  \<comment> \<open>a value inside an f-string\<close>
  "format_val e v = (case v of VStr s \<Rightarrow> s | _ \<Rightarrow> str_of e v)"

definition answer_query :: "env \<Rightarrow> dict \<Rightarrow> db \<Rightarrow> pyerr + (response \<times> db)" where
  \<comment> \<open>lines 171 to 195: the branch for a free-text message\<close>
  "answer_query e d0 d =
     (case map_of d0 ''user_message'' of
        None \<Rightarrow> Inl KeyError
      | Some (VStr m) \<Rightarrow>
          (let user_question = py_lower m
           in bind (find_one_workflow e d FIXED_VEHICLE_ID) (\<lambda>found.
              case found of
                None \<Rightarrow> Inr (Reply ''Your vehicle is healthy. No issues detected.'', d)
              | Some doc \<Rightarrow>
                  if py_in ''health'' user_question
                  then Inr (Reply (''Your vehicle health score is ''
                                   @ show_int (overall_health_score doc) @ ''%''), d)
                  else if py_in ''issue'' user_question \<or> py_in ''problem'' user_question
                  then (if issues doc = [] then Inr (Reply ''There are no current issues.'', d)
                        else Inr (Reply (''Current issues: '' @ join '', '' (map name (issues doc))), d))
                  else if py_in ''schedule'' user_question \<or> py_in ''maintenance'' user_question
                  then Inr (Reply (''Your maintenance is scheduled for ''
                                   @ predicted_schedule doc @ ''.''), d)
                  else if py_in ''engine temperature'' user_question
                          \<or> py_in ''engine temp'' user_question
                  then Inr (Reply (''Your engine temperature is ''
                                   @ format_val e (dict_get (telemetry doc) ''engineTemp''
                                                     (VStr ''Not available'')) @ ''.''), d)
                  else Inr (Reply ''Ask me about health, issues or schedule.'', d)))
      | Some _ \<Rightarrow> Inl AttributeError)"

definition book_appointment :: "env \<Rightarrow> issue list \<Rightarrow> string \<Rightarrow> datetime \<Rightarrow> db \<Rightarrow> pyerr + db" where
  \<comment> \<open>lines 307 to 323, entered when \<open>issues\<close> is not empty\<close>
  "book_appointment e is schedule_text timestamp_now d =
     (let service_name = join '', '' (map name is)
      in case py_split [] schedule_text of
           [] \<Rightarrow> Inl IndexError
         | day_word # _ \<Rightarrow>
             bind (find_one_appointment e d FIXED_VEHICLE_ID day_word ''10:00 AM'' ''Pending'')
               (\<lambda>existing_appointment.
                  case existing_appointment of
                    Some _ \<Rightarrow> Inr d
                  | None \<Rightarrow>
                      insert_one_appointment e d FIXED_VEHICLE_ID service_name day_word
                        ''10:00 AM'' ''Pending'' True timestamp_now))"

definition process_telemetry :: "env \<Rightarrow> dict \<Rightarrow> db \<Rightarrow> pyerr + (response \<times> db)" where
  \<comment> \<open>lines 200 to 333: the evaluation of a telemetry reading\<close>
  "process_telemetry e d0 d =
     (let telemetry = dict_set ''id'' (VStr FIXED_VEHICLE_ID) d0
      in bind (read_engine_temp telemetry) (\<lambda>engine_temp.
         bind (detect_issues telemetry engine_temp) (\<lambda>is.
         let diagnosis_text = diagnosis_text_of is;
             customer_msg = customer_message_of is
         in bind (compute_component_health telemetry engine_temp) (\<lambda>ch.
            bind (compute_overall_health ch) (\<lambda>overall_health.
            let schedule_text = schedule_text_of is;
                timestamp_now = utcnow e
            in bind (find_one_workflow e d FIXED_VEHICLE_ID) (\<lambda>existing.
               let hist = (case existing of None \<Rightarrow> [] | Some doc \<Rightarrow> history doc)
                            @ [\<lparr>timestamp = timestamp_now, h_telemetry = telemetry, h_issues = is\<rparr>]
               in bind (replace_one_workflow e d FIXED_VEHICLE_ID
                          \<lparr>vehicle_id = FIXED_VEHICLE_ID, telemetry = telemetry, issues = is,
                           component_health = ch, overall_health_score = overall_health,
                           diagnosis_summary = diagnosis_text,
                           customer_friendly_message = customer_msg,
                           predicted_schedule = schedule_text, feedback = feedback_of is,
                           last_updated = timestamp_now, history = hist\<rparr>) (\<lambda>d1.
                  bind (if is \<noteq> [] then book_appointment e is schedule_text timestamp_now d1
                        else Inr d1) (\<lambda>d2.
                  Inr (Report \<lparr>r_issues = is, anomalies = is, health_score = overall_health,
                                r_diagnosis_summary = diagnosis_text,
                                customer_message = customer_msg, schedule = schedule_text,
                                r_feedback = feedback_of is\<rparr>, d2)))))))))"

definition run_maintenance :: "env \<Rightarrow> telemetry_request \<Rightarrow> db \<Rightarrow> pyerr + (response \<times> db)" where
  \<comment> \<open>\<^verbatim>\<open>data[0]\<close> raises on an empty list; then the request is a question when it has a
      \<^verbatim>\<open>user_message\<close> and none of the four telemetry fields\<close>
  "run_maintenance e request d =
     (case data request of
        [] \<Rightarrow> Inl IndexError
      | d0 # _ \<Rightarrow>
          if dict_has d0 ''user_message'' \<and> \<not> list_ex (dict_has d0) telemetry_keys
          then answer_query e d0 d
          else process_telemetry e d0 d)"

definition voice_query :: "env \<Rightarrow> string \<Rightarrow> db \<Rightarrow> pyerr + (string \<times> db)" where
  \<comment> \<open>\<^verbatim>\<open>POST /voice-query\<close>: the reply is \<^verbatim>\<open>response["customer_message"]\<close>\<close>
  "voice_query e message d =
     bind (run_maintenance e \<lparr>data = [[(''user_message'', VStr message)]]\<rparr> d) (\<lambda>(resp, d').
       case resp of Reply m \<Rightarrow> Inr (m, d') | Report r \<Rightarrow> Inr (customer_message r, d'))"

section \<open>Appointment status\<close>

definition hex_of :: "char \<Rightarrow> nat option" where
  "hex_of c =
     (let n = (of_char c :: nat)
      in if 48 \<le> n \<and> n \<le> 57 then Some (n - 48)
         else if 97 \<le> n \<and> n \<le> 102 then Some (n - 87)
         else if 65 \<le> n \<and> n \<le> 70 then Some (n - 55)
         else None)"

fun hex_value :: "nat \<Rightarrow> string \<Rightarrow> nat option" where
  \<comment> \<open>the number a string of hexadecimal digits writes, after the digits already read\<close>
  "hex_value acc [] = Some acc"
| "hex_value acc (c # cs) =
     (case hex_of c of None \<Rightarrow> None | Some h \<Rightarrow> hex_value (16 * acc + h) cs)"

definition object_id :: "string \<Rightarrow> pyerr + nat" where
  \<comment> \<open>\<^verbatim>\<open>ObjectId(s)\<close>: the twelve bytes written as 24 hexadecimal digits\<close>
  "object_id s =
     (if length s = 24
      then (case hex_value 0 s of None \<Rightarrow> Inl InvalidId | Some i \<Rightarrow> Inr i)
      else Inl InvalidId)"

fun update_first :: "('a \<Rightarrow> bool) \<Rightarrow> ('a \<Rightarrow> 'a) \<Rightarrow> 'a list \<Rightarrow> 'a list option" where
  \<comment> \<open>\<^verbatim>\<open>update_one\<close>: the first matching document is changed; \<open>None\<close> when none matches\<close>
  "update_first P f [] = None"
| "update_first P f (x # xs) =
     (if P x then Some (f x # xs) else map_option ((#) x) (update_first P f xs))"

definition update_appointment_status :: "env \<Rightarrow> string \<Rightarrow> string \<Rightarrow> db \<Rightarrow> pyerr + (string \<times> db)" where
  \<comment> \<open>\<^verbatim>\<open>PATCH /appointments/{id}/status\<close>: a \<^verbatim>\<open>matched_count\<close> of 0 is the 404\<close>
  "update_appointment_status e appointment_id new_status d =
     bind (object_id appointment_id) (\<lambda>i.
       if \<not> store_up e then Inl StoreFailure
       else (case update_first (\<lambda>a. oid a = i)
                    (\<lambda>a. a\<lparr>status := new_status, updated_at := Some (utcnow e)\<rparr>)
                    (appointment_collection d) of
               None \<Rightarrow> Inl NotFound
             | Some as \<Rightarrow>
                 Inr (''Appointment status updated successfully'',
                      d\<lparr>appointment_collection := as\<rparr>)))"

section \<open>Dashboard and analytics\<close>

record dashboard =
  d_telemetry :: dict
  d_health_score :: int
  d_component_health :: "component_health option"  \<comment> \<open>\<open>None\<close> is the empty dictionary\<close>
  predicted_issues :: "issue list"
  d_anomalies :: "issue list"
  diagnosis :: string
  d_customer_message :: string
  d_schedule :: string
  d_feedback :: string
  d_last_updated :: "datetime option"

definition default_dashboard :: "string \<Rightarrow> dashboard" where
  \<comment> \<open>the payload of lines 361 to 372 and 389 to 400, which differ in the message only\<close>
  "default_dashboard msg =
     \<lparr>d_telemetry = [], d_health_score = 100, d_component_health = None,
      predicted_issues = [], d_anomalies = [], diagnosis = [], d_customer_message = msg,
      d_schedule = ''No appointment needed'', d_feedback = [], d_last_updated = None\<rparr>"

definition dashboard_body :: "env \<Rightarrow> db \<Rightarrow> pyerr + dashboard" where
  \<comment> \<open>the body of the \<^verbatim>\<open>try\<close>, lines 358 to 385; \<^verbatim>\<open>x or default\<close> takes the default
      for a falsy \<open>x\<close> (0, empty)\<close>
  "dashboard_body e d =
     bind (find_one_workflow e d FIXED_VEHICLE_ID) (\<lambda>found.
       case found of
         None \<Rightarrow> Inr (default_dashboard ''No data available'')
       | Some doc \<Rightarrow>
           Inr \<lparr>d_telemetry = telemetry doc,
                d_health_score =
                  (if overall_health_score doc = 0 then 100 else overall_health_score doc),
                d_component_health = Some (component_health doc),
                predicted_issues = issues doc,
                d_anomalies = issues doc,
                diagnosis = diagnosis_summary doc,
                d_customer_message = customer_friendly_message doc,
                d_schedule = (if predicted_schedule doc = [] then ''No appointment needed''
                              else predicted_schedule doc),
                d_feedback = feedback doc,
                d_last_updated = Some (last_updated doc)\<rparr>)"

definition get_dashboard_data :: "env \<Rightarrow> db \<Rightarrow> pyerr + dashboard" where
  \<comment> \<open>\<^verbatim>\<open>GET /dashboard/data\<close>: \<^verbatim>\<open>except Exception\<close> turns any error of the body into
      the default payload\<close>
  "get_dashboard_data e d =
     (case dashboard_body e d of
        Inl err \<Rightarrow> Inr (default_dashboard ''Error fetching data'')
      | Inr payload \<Rightarrow> Inr payload)"

record series_point =
  p_time :: string
  p_value :: pyfloat

record series =
  s_values :: "series_point list"
  safe_range :: "int \<times> int"
  ai_insight :: string

record violation =
  parameter :: string
  v_safe_range :: string
  current :: string
  deviation :: string
  breach_duration :: string
  v_status :: string

record timeline_entry =
  t_time :: string
  stage :: string
  description :: string

record analytics =
  sensors :: "(string \<times> series) list"
  violations :: "violation list"
  timeline :: "timeline_entry list"

definition strftime_HM :: "datetime \<Rightarrow> string" where
  \<comment> \<open>\<^verbatim>\<open>strftime("%H:%M")\<close>\<close>
  "strftime_HM t = pad2 (hour t) @ '':'' @ pad2 (minute t)"

definition strftime_day :: "datetime \<Rightarrow> string" where
  \<comment> \<open>\<^verbatim>\<open>strftime("Day %d \<dots> %H:%M")\<close>, with a dash between the day and the time\<close>
  "strftime_day t = ''Day '' @ pad2 (day t) @ '' '' @ em_dash @ '' '' @ strftime_HM t"

definition last_n :: "nat \<Rightarrow> 'a list \<Rightarrow> 'a list" where
  \<comment> \<open>the slice \<^verbatim>\<open>xs[-n:]\<close> for a positive \<open>n\<close>\<close>
  "last_n n xs = drop (length xs - n) xs"

definition is_alpha :: "char \<Rightarrow> bool" where
  "is_alpha c = (let n = (of_char c :: nat) in (65 \<le> n \<and> n \<le> 90) \<or> (97 \<le> n \<and> n \<le> 122))"

definition upper_char :: "char \<Rightarrow> char" where
  "upper_char c =
     (let n = (of_char c :: nat) in if 97 \<le> n \<and> n \<le> 122 then char_of (n - 32) else c)"

fun title_from :: "bool \<Rightarrow> string \<Rightarrow> string" where
  \<comment> \<open>\<^verbatim>\<open>s.title()\<close>: a letter after a letter is lowered, any other letter is raised\<close>
  "title_from prev [] = []"
| "title_from prev (c # cs) =
     (if is_alpha c then (if prev then lower_char c else upper_char c) # title_from True cs
      else c # title_from False cs)"

definition series_value :: "env \<Rightarrow> pyval \<Rightarrow> pyerr + pyfloat" where
  \<comment> \<open>\<^verbatim>\<open>float(str(v).replace("\<dots>C", ""))\<close>. The text of a float reads back as the
      same float; the text of a list or a dictionary opens with a bracket and is no number\<close>
  "series_value e v =
     (case v of
        VStr s \<Rightarrow> float_of_str (py_replace deg_C [] s)
      | VInt i \<Rightarrow> float_of_str (py_replace deg_C [] (show_int i))
      | VFloat r \<Rightarrow> Inr (Fin r)
      | VBool b \<Rightarrow> float_of_str (py_replace deg_C [] (if b then ''True'' else ''False''))
      | VNone \<Rightarrow> float_of_str (py_replace deg_C [] ''None'')
      | _ \<Rightarrow> Inl ValueError)"

fun series_loop ::
  "env \<Rightarrow> string \<Rightarrow> history_entry list \<Rightarrow> series_point list \<Rightarrow> pyerr + series_point list" where
  \<comment> \<open>the loop of \<^verbatim>\<open>build_series\<close>; the last argument is \<^verbatim>\<open>values\<close>\<close>
  "series_loop e key [] vals = Inr vals"
| "series_loop e key (h # hs) vals =
     (case map_of (h_telemetry h) key of
        None \<Rightarrow> series_loop e key hs vals
      | Some v \<Rightarrow>
          bind (series_value e v) (\<lambda>x.
            series_loop e key hs (vals @ [\<lparr>p_time = strftime_HM (timestamp h), p_value = x\<rparr>])))"

definition build_series ::
  "env \<Rightarrow> history_entry list \<Rightarrow> string \<Rightarrow> int \<times> int \<Rightarrow> pyerr + series" where
  \<comment> \<open>the closure \<^verbatim>\<open>build_series\<close>, with the \<open>history\<close> it captures as a parameter\<close>
  "build_series e hist key rng =
     bind (series_loop e key (last_n 24 hist) []) (\<lambda>vals.
       Inr \<lparr>s_values = vals, safe_range = rng,
            ai_insight = title_from False (py_replace ''_'' '' '' key)
                         @ '' trend indicates deviation from safe operating range.''\<rparr>)"

definition violation_of :: "issue \<Rightarrow> violation" where
  "violation_of i =
     \<lparr>parameter = name i, v_safe_range = ''See specs'', current = ''Out of range'',
      deviation = severity i, breach_duration = em_dash,
      v_status = (if severity i = ''high'' then ''Critical'' else ''Moderate'')\<rparr>"

fun violations_loop :: "issue list \<Rightarrow> violation list \<Rightarrow> violation list" where
  "violations_loop [] acc = acc"
| "violations_loop (i # is) acc = violations_loop is (acc @ [violation_of i])"

definition timeline_entry_of :: "history_entry \<Rightarrow> issue \<Rightarrow> timeline_entry" where
  \<comment> \<open>the entry for \<open>h\<close>, whose first issue is \<open>i\<close>\<close>
  "timeline_entry_of h i =
     \<lparr>t_time = strftime_day (timestamp h), stage = name i, description = recommended_action i\<rparr>"

fun timeline_loop :: "history_entry list \<Rightarrow> timeline_entry list \<Rightarrow> timeline_entry list" where
  \<comment> \<open>an entry without issues is skipped; otherwise its first issue is shown\<close>
  "timeline_loop [] acc = acc"
| "timeline_loop (h # hs) acc =
     (case h_issues h of
        [] \<Rightarrow> timeline_loop hs acc
      | i # _ \<Rightarrow> timeline_loop hs (acc @ [timeline_entry_of h i]))"

definition get_full_analytics :: "env \<Rightarrow> db \<Rightarrow> pyerr + analytics" where
  \<comment> \<open>\<^verbatim>\<open>GET /analytics/full\<close>\<close>
  "get_full_analytics e d =
     bind (find_one_workflow e d FIXED_VEHICLE_ID) (\<lambda>found.
       case found of
         None \<Rightarrow> Inr \<lparr>sensors = [], violations = [], timeline = []\<rparr>
       | Some doc \<Rightarrow>
           (let hist = history doc
            in bind (build_series e hist ''engineTemp'' (70, 95)) (\<lambda>s1.
               bind (build_series e hist ''oilPressure'' (25, 65)) (\<lambda>s2.
               bind (build_series e hist ''batteryVoltage'' (12, 14)) (\<lambda>s3.
               bind (build_series e hist ''tirePressure'' (32, 36)) (\<lambda>s4.
               Inr \<lparr>sensors = [(''engine_temperature'', s1), (''oil_pressure'', s2),
                               (''battery_voltage'', s3), (''tire_pressure'', s4)],
                    violations = violations_loop (issues doc) [],
                    timeline = timeline_loop (last_n 6 hist) []\<rparr>))))))"

section \<open>Sequences of requests\<close>

text \<open>
  Requests are served one after the other. A request that raises is answered with a server
  error and leaves the database as it found it.
\<close>

datatype call =
    RunMaintenance telemetry_request
  | UpdateStatus string string

definition step :: "env \<Rightarrow> call \<Rightarrow> db \<Rightarrow> db" where
  "step e c d =
     (case c of
        RunMaintenance req \<Rightarrow> (case run_maintenance e req d of Inl _ \<Rightarrow> d | Inr (_, d') \<Rightarrow> d')
      | UpdateStatus i st \<Rightarrow>
          (case update_appointment_status e i st d of Inl _ \<Rightarrow> d | Inr (_, d') \<Rightarrow> d'))"

fun serve :: "(env \<times> call) list \<Rightarrow> db \<Rightarrow> db" where
  "serve [] d = d"
| "serve ((e, c) # cs) d = serve cs (step e c d)"

definition fresh_db :: db where
  "fresh_db = \<lparr>workflow_collection = [], appointment_collection = [], next_oid = 0\<rparr>"

section \<open>Notions used in the statements\<close>

definition stored_snapshot :: "db \<Rightarrow> snapshot option" where
  \<comment> \<open>the document a \<^verbatim>\<open>find_one\<close> for the fixed vehicle reads\<close>
  "stored_snapshot d = find (\<lambda>x. vehicle_id x = FIXED_VEHICLE_ID) (workflow_collection d)"

definition stored_history :: "db \<Rightarrow> history_entry list" where
  "stored_history d = (case stored_snapshot d of None \<Rightarrow> [] | Some doc \<Rightarrow> history doc)"

definition snapshot_count :: "db \<Rightarrow> nat" where
  "snapshot_count d = length (filter (\<lambda>x. vehicle_id x = FIXED_VEHICLE_ID) (workflow_collection d))"

definition pending_slot :: "appointment \<Rightarrow> bool" where
  \<comment> \<open>what the duplicate check looks for\<close>
  "pending_slot a \<longleftrightarrow> a_vehicle_id a = FIXED_VEHICLE_ID \<and> date a = ''Tomorrow''
      \<and> time a = ''10:00 AM'' \<and> status a = ''Pending''"

definition pending_count :: "db \<Rightarrow> nat" where
  "pending_count d = length (filter pending_slot (appointment_collection d))"

definition report_for :: "issue list \<Rightarrow> int \<Rightarrow> report" where
  "report_for is ov =
     \<lparr>r_issues = is, anomalies = is, health_score = ov,
      r_diagnosis_summary = diagnosis_text_of is, customer_message = customer_message_of is,
      schedule = schedule_text_of is, r_feedback = feedback_of is\<rparr>"

definition with_id :: "dict \<Rightarrow> dict" where
  \<comment> \<open>the reading after \<^verbatim>\<open>telemetry["id"] = FIXED_VEHICLE_ID\<close>\<close>
  "with_id d0 = dict_set ''id'' (VStr FIXED_VEHICLE_ID) d0"

definition snapshot_for ::
  "datetime \<Rightarrow> dict \<Rightarrow> issue list \<Rightarrow> component_health \<Rightarrow> int \<Rightarrow> history_entry list \<Rightarrow> snapshot" where
  \<comment> \<open>the document of lines 287 to 299, for a history \<open>hist\<close> read before the run\<close>
  "snapshot_for now d0 is ch ov hist =
     \<lparr>vehicle_id = FIXED_VEHICLE_ID, telemetry = with_id d0,
      issues = is, component_health = ch, overall_health_score = ov,
      diagnosis_summary = diagnosis_text_of is,
      customer_friendly_message = customer_message_of is,
      predicted_schedule = schedule_text_of is, feedback = feedback_of is,
      last_updated = now,
      history = hist @ [\<lparr>timestamp = now, h_telemetry = with_id d0, h_issues = is\<rparr>]\<rparr>"

definition appointment_for :: "datetime \<Rightarrow> issue list \<Rightarrow> nat \<Rightarrow> appointment" where
  \<comment> \<open>the document of lines 315 to 323, with its identifier\<close>
  "appointment_for now is n =
     \<lparr>oid = n, a_vehicle_id = FIXED_VEHICLE_ID, service_type = join '', '' (map name is),
      date = ''Tomorrow'', time = ''10:00 AM'', status = ''Pending'', recommended_by_ai = True,
      created_at = now, updated_at = None\<rparr>"

definition books :: "issue list \<Rightarrow> db \<Rightarrow> bool" where
  \<comment> \<open>whether a run with these issues inserts an appointment\<close>
  "books is d \<longleftrightarrow> is \<noteq> [] \<and> \<not> list_ex pending_slot (appointment_collection d)"

definition persisted ::
  "datetime \<Rightarrow> dict \<Rightarrow> issue list \<Rightarrow> component_health \<Rightarrow> int \<Rightarrow> db \<Rightarrow> db" where
  \<comment> \<open>the database after a run that computed these values\<close>
  "persisted now d0 is ch ov d =
     \<lparr>workflow_collection =
        replace_first (\<lambda>x. vehicle_id x = FIXED_VEHICLE_ID)
          (snapshot_for now d0 is ch ov (stored_history d)) (workflow_collection d),
      appointment_collection =
        appointment_collection d @ (if books is d then [appointment_for now is (next_oid d)] else []),
      next_oid = (if books is d then Suc (next_oid d) else next_oid d)\<rparr>"

text \<open>A clock reading, an environment and the reading of the worked example.\<close>

definition ex_time :: datetime where
  "ex_time = \<lparr>year = 2025, month = 1, day = 7, hour = 9, minute = 5, second = 0,
     microsecond = 0\<rparr>"

definition ex_env :: env where
  "ex_env = \<lparr>utcnow = ex_time, store_up = True, str_of = (\<lambda>v. [])\<rparr>"

definition example_reading :: dict where
  "example_reading =
     [(''engineTemp'', VStr (''105'' @ deg_C)), (''oilPressure'', VInt 15),
      (''batteryVoltage'', VFloat 12.6), (''tirePressure'', VInt 32)]"

definition example_request :: telemetry_request where
  "example_request = \<lparr>data = [example_reading]\<rparr>"

definition example_health :: component_health where
  "example_health = \<lparr>engineHealth = Fin 70, battery = 100, brakes = 75, tirePressure = ''Normal''\<rparr>"

definition example_db :: db where
  \<comment> \<open>an empty database after one run on the example\<close>
  "example_db = persisted ex_time example_reading [engine_high, oil_low] example_health 86 fresh_db"







text \<open>
  A sequence of telemetry evaluations: the requests are served one after the other, and each
  takes the evaluation path and returns its report.
\<close>

fun evaluations :: "(env \<times> telemetry_request) list \<Rightarrow> db \<Rightarrow> (report list \<times> db) option" where
  "evaluations [] d = Some ([], d)"
| "evaluations ((e, req) # cs) d =
     (case run_maintenance e req d of
        Inr (Report r, d1) \<Rightarrow>
          (case evaluations cs d1 of Some (rs, d2) \<Rightarrow> Some (r # rs, d2) | None \<Rightarrow> None)
      | _ \<Rightarrow> None)"

definition reading_of :: "telemetry_request \<Rightarrow> dict" where
  \<comment> \<open>the reading a request submits, with the vehicle identifier the handler adds\<close>
  "reading_of req = (case data req of d0 # _ \<Rightarrow> with_id d0 | [] \<Rightarrow> [])"

definition entry_of :: "env \<times> telemetry_request \<Rightarrow> report \<Rightarrow> history_entry" where
  \<comment> \<open>the history entry of a run\<close>
  "entry_of c r =
     \<lparr>timestamp = utcnow (fst c), h_telemetry = reading_of (snd c), h_issues = r_issues r\<rparr>"

definition later_env :: env where
  \<comment> \<open>the example environment, five minutes later\<close>
  "later_env = ex_env\<lparr>utcnow := ex_time\<lparr>minute := 10\<rparr>\<rparr>"

definition second_db :: db where
  \<comment> \<open>an empty database after two runs on the example\<close>
  "second_db =
     persisted (utcnow later_env) example_reading [engine_high, oil_low] example_health 86
       example_db"

definition reflects :: "snapshot \<Rightarrow> env \<times> telemetry_request \<Rightarrow> report \<Rightarrow> bool" where
  \<comment> \<open>every field of the snapshot but its history is what this one run computed\<close>
  "reflects doc c r \<longleftrightarrow>
     vehicle_id doc = FIXED_VEHICLE_ID \<and> telemetry doc = reading_of (snd c)
     \<and> issues doc = r_issues r \<and> overall_health_score doc = health_score r
     \<and> diagnosis_summary doc = r_diagnosis_summary r
     \<and> customer_friendly_message doc = customer_message r
     \<and> predicted_schedule doc = schedule r \<and> feedback doc = r_feedback r
     \<and> last_updated doc = utcnow (fst c)
     \<and> (\<exists>et. read_engine_temp (reading_of (snd c)) = Inr et
             \<and> compute_component_health (reading_of (snd c)) et = Inr (component_health doc))"

text \<open>Appointments that are pending, for the fixed vehicle and recommended by the service.\<close>

definition ai_pending :: "appointment \<Rightarrow> bool" where
  "ai_pending a \<longleftrightarrow>
     a_vehicle_id a = FIXED_VEHICLE_ID \<and> status a = ''Pending'' \<and> recommended_by_ai a"

definition ai_pending_count :: "db \<Rightarrow> nat" where
  "ai_pending_count d = length (filter ai_pending (appointment_collection d))"

definition at_slot :: "appointment \<Rightarrow> bool" where
  \<comment> \<open>an appointment as \<^verbatim>\<open>run_maintenance\<close> creates them, whatever its status\<close>
  "at_slot a \<longleftrightarrow>
     a_vehicle_id a = FIXED_VEHICLE_ID \<and> date a = ''Tomorrow'' \<and> time a = ''10:00 AM''
     \<and> recommended_by_ai a"

definition sets_pending :: "env \<times> call \<Rightarrow> bool" where
  \<comment> \<open>a status update whose new status is \<^verbatim>\<open>Pending\<close>\<close>
  "sets_pending c = (case snd c of UpdateStatus i st \<Rightarrow> st = ''Pending'' | _ \<Rightarrow> False)"

definition reopen_calls :: "(env \<times> call) list" where
  \<comment> \<open>two runs on the example; the first appointment is taken in progress before the second
      run and set back to pending after it\<close>
  "reopen_calls =
     [(ex_env, RunMaintenance example_request),
      (ex_env, UpdateStatus ''000000000000000000000000'' ''In Progress''),
      (later_env, RunMaintenance example_request),
      (later_env, UpdateStatus ''000000000000000000000000'' ''Pending'')]"

definition slot_inv :: "db \<Rightarrow> bool" where
  \<comment> \<open>every appointment is one the service created, and at most one of them is pending\<close>
  "slot_inv d \<longleftrightarrow> list_all at_slot (appointment_collection d) \<and> ai_pending_count d \<le> 1"

definition progress_calls :: "(env \<times> call) list" where
  \<comment> \<open>two runs on the example, the first appointment taken in progress between them\<close>
  "progress_calls = take 3 reopen_calls"



text \<open>An environment in which the database does not answer.\<close>

definition down_env :: env where
  "down_env = ex_env\<lparr>store_up := False\<rparr>"

text \<open>
  What the series of a sensor is, for the key it reads and the history it is built from: the
  given safe range, and one point for each of the last 24 history entries whose telemetry has
  the key, in their order, with the time of the entry and the value of the key read as a
  float.
\<close>

definition series_of :: "env \<Rightarrow> string \<Rightarrow> int \<times> int \<Rightarrow> history_entry list \<Rightarrow> series \<Rightarrow> bool" where
  "series_of e key rng hist s \<longleftrightarrow>
     safe_range s = rng
     \<and> list_all2
          (\<lambda>p h. p_time p = strftime_HM (timestamp h)
                 \<and> (\<exists>v. map_of (h_telemetry h) key = Some v \<and> series_value e v = Inr (p_value p)))
          (s_values s) (filter (\<lambda>h. dict_has (h_telemetry h) key) (last_n 24 hist))"

text \<open>A reading without fields, which raises no issue, and a database with seven runs.\<close>

definition quiet_request :: telemetry_request where
  "quiet_request = \<lparr>data = [[]]\<rparr>"

definition quiet_health :: component_health where
  "quiet_health = \<lparr>engineHealth = Fin 100, battery = 100, brakes = 75, tirePressure = ''Normal''\<rparr>"

definition aged_db :: db where
  \<comment> \<open>one run on the example, which has issues, and then six runs without issues\<close>
  "aged_db =
     serve ((ex_env, RunMaintenance example_request)
            # replicate 6 (later_env, RunMaintenance quiet_request)) fresh_db"

definition quiet_entry :: history_entry where
  "quiet_entry = \<lparr>timestamp = utcnow later_env, h_telemetry = with_id [], h_issues = []\<rparr>"

definition example_entry :: history_entry where
  "example_entry = \<lparr>timestamp = ex_time, h_telemetry = with_id example_reading,
     h_issues = [engine_high, oil_low]\<rparr>"

section \<open>Basic lemmas\<close>

lemma bind_Inl [simp]: "bind (Inl e) f = Inl e" by (simp add: bind_def)

lemma bind_Inr [simp]: "bind (Inr x) f = f x" by (simp add: bind_def)

lemma bind_eq_Inr: "bind m f = Inr y \<longleftrightarrow> (\<exists>x. m = Inr x \<and> f x = Inr y)"
  by (cases m) simp_all

lemma map_of_dict_set: "map_of (dict_set k v d) k' = (if k' = k then Some v else map_of d k')"
  by (induction d) auto

lemma dict_get_with_id: "k \<noteq> ''id'' \<Longrightarrow> dict_get (with_id d0) k dflt = dict_get d0 k dflt"
  by (simp add: dict_get_def with_id_def map_of_dict_set)

lemma find_replace_first: "P new \<Longrightarrow> find P (replace_first P new xs) = Some new"
  by (induction xs) auto

lemma filter_replace_first:
  "P new \<Longrightarrow> length (filter P (replace_first P new xs)) = max 1 (length (filter P xs))"
  by (induction xs) auto

lemma find_None_list_ex: "(find P xs = None) = (\<not> list_ex P xs)"
  by (induction xs) auto

lemma read_engine_temp_id: "read_engine_temp (with_id d0) = read_engine_temp d0"
  by (simp add: read_engine_temp_def dict_get_with_id)

lemma detect_issues_id: "detect_issues (with_id d0) et = detect_issues d0 et"
  by (simp add: detect_issues_def dict_get_with_id)

lemma compute_component_health_id:
  "compute_component_health (with_id d0) et = compute_component_health d0 et"
  by (simp add: compute_component_health_def dict_get_with_id)

lemma py_split_schedule: "py_split [] ''Tomorrow 10 AM'' = [''Tomorrow'', ''10'', ''AM'']"
  by (simp add: is_space_def)

lemma find_pending_slot:
  "find (\<lambda>a. a_vehicle_id a = FIXED_VEHICLE_ID \<and> date a = ''Tomorrow'' \<and> time a = ''10:00 AM''
              \<and> status a = ''Pending'') xs = find pending_slot xs"
  by (rule arg_cong [where f = "\<lambda>P. find P xs"]) (simp add: pending_slot_def fun_eq_iff)

lemma book_appointment_eq:
  assumes ne: "is \<noteq> []"
  shows "book_appointment e is (schedule_text_of is) now d =
     (if \<not> store_up e then Inl StoreFailure
      else if list_ex pending_slot (appointment_collection d) then Inr d
      else Inr (d\<lparr>appointment_collection := appointment_collection d @
                     [appointment_for now is (next_oid d)],
                   next_oid := Suc (next_oid d)\<rparr>))"
proof -
  have sp: "py_split [] (schedule_text_of is) = [''Tomorrow'', ''10'', ''AM'']"
    using ne py_split_schedule by (simp add: schedule_text_of_def del: py_split.simps)
  show ?thesis
  proof (cases "find pending_slot (appointment_collection d)")
    case None
    then show ?thesis
      using find_None_list_ex [of pending_slot "appointment_collection d"]
      by (simp add: book_appointment_def sp find_one_appointment_def find_pending_slot
          insert_one_appointment_def appointment_for_def)
  next
    case (Some a)
    then show ?thesis
      using find_None_list_ex [of pending_slot "appointment_collection d"]
      by (simp add: book_appointment_def sp find_one_appointment_def find_pending_slot)
  qed
qed

lemma process_telemetry_eq:
  "process_telemetry e d0 d =
     bind (read_engine_temp d0) (\<lambda>et.
     bind (detect_issues d0 et) (\<lambda>is.
     bind (compute_component_health d0 et) (\<lambda>ch.
     bind (compute_overall_health ch) (\<lambda>ov.
     if store_up e then Inr (Report (report_for is ov), persisted (utcnow e) d0 is ch ov d)
     else Inl StoreFailure))))"
  unfolding process_telemetry_def Let_def with_id_def [symmetric] read_engine_temp_id
    detect_issues_id compute_component_health_id
  apply (rule arg_cong2 [where f = bind, OF refl] ext)+
  apply (simp add: find_one_workflow_def replace_one_workflow_def book_appointment_eq
      report_for_def snapshot_for_def persisted_def stored_history_def stored_snapshot_def
      books_def)
  done

lemma answer_query_Reply:
  assumes "answer_query e d0 d = Inr (resp, d')"
  shows "\<exists>m. resp = Reply m \<and> d' = d"
proof (cases "map_of d0 ''user_message''")
  case None
  with assms show ?thesis by (simp add: answer_query_def)
next
  case (Some v)
  show ?thesis
  proof (cases v)
    case (VStr m)
    show ?thesis
    proof (cases "find_one_workflow e d FIXED_VEHICLE_ID")
      case (Inl err)
      with assms Some VStr show ?thesis by (simp add: answer_query_def)
    next
      case (Inr found)
      with assms Some VStr show ?thesis
        by (cases found) (auto simp: answer_query_def Let_def split: if_splits)
    qed
  qed (use assms Some in \<open>simp_all add: answer_query_def\<close>)
qed

lemma run_maintenance_Report:
  assumes "run_maintenance e req d = Inr (Report r, d')"
  obtains d0 rest et ch where
    "data req = d0 # rest"
    "read_engine_temp d0 = Inr et"
    "detect_issues d0 et = Inr (r_issues r)"
    "compute_component_health d0 et = Inr ch"
    "compute_overall_health ch = Inr (health_score r)"
    "store_up e"
    "r = report_for (r_issues r) (health_score r)"
    "d' = persisted (utcnow e) d0 (r_issues r) ch (health_score r) d"
proof -
  from assms obtain d0 rest where dr: "data req = d0 # rest"
    by (cases "data req") (auto simp: run_maintenance_def)
  have nq: "answer_query e d0 d \<noteq> Inr (Report r, d')"
    using answer_query_Reply [of e d0 d "Report r" d'] by auto
  from assms dr nq have pt: "process_telemetry e d0 d = Inr (Report r, d')"
    by (auto simp: run_maintenance_def split: if_splits)
  then obtain et iss ch ov where
    "read_engine_temp d0 = Inr et" "detect_issues d0 et = Inr iss"
    "compute_component_health d0 et = Inr ch" "compute_overall_health ch = Inr ov"
    "store_up e" "r = report_for iss ov" "d' = persisted (utcnow e) d0 iss ch ov d"
    by (auto simp: process_telemetry_eq bind_eq_Inr split: if_splits)
  moreover from this have "r_issues r = iss" "health_score r = ov"
    by (simp_all add: report_for_def)
  ultimately show thesis using dr that by simp
qed

lemma stored_snapshot_persisted:
  "stored_snapshot (persisted now d0 iss ch ov d) = Some (snapshot_for now d0 iss ch ov (stored_history d))"
  by (simp add: stored_snapshot_def persisted_def find_replace_first snapshot_for_def)

lemma snapshot_for_fields:
  "component_health (snapshot_for now d0 iss ch ov hist) = ch"
  "overall_health_score (snapshot_for now d0 iss ch ov hist) = ov"
  "issues (snapshot_for now d0 iss ch ov hist) = iss"
  "telemetry (snapshot_for now d0 iss ch ov hist) = with_id d0"
  "history (snapshot_for now d0 iss ch ov hist)
     = hist @ [\<lparr>timestamp = now, h_telemetry = with_id d0, h_issues = iss\<rparr>]"
  "vehicle_id (snapshot_for now d0 iss ch ov hist) = FIXED_VEHICLE_ID"
  by (simp_all add: snapshot_for_def)

lemma detect_issues_Inr:
  assumes "detect_issues d0 et = Inr iss"
  obtains oil bat tire where
    "py_lt (dict_get d0 ''oilPressure'' (VInt 30)) 20 = Inr oil"
    "py_lt (dict_get d0 ''batteryVoltage'' (VFloat 12.6)) 12 = Inr bat"
    "py_lt (dict_get d0 ''tirePressure'' (VInt 32)) 30 = Inr tire"
    "iss = (if fl_gt et 100 then [engine_high] else []) @ (if oil then [oil_low] else [])
          @ (if bat then [battery_low] else []) @ (if tire then [tire_low] else [])"
  using assms unfolding detect_issues_def Let_def bind_eq_Inr by auto

lemma issue_names_distinct:
  "name engine_high = ''Engine Temperature High''" "name oil_low = ''Oil Pressure Low''"
  "name battery_low = ''Battery Voltage Low''" "name tire_low = ''Tire Pressure Low''"
  by (simp_all add: engine_high_def oil_low_def battery_low_def tire_low_def)



lemmas float_defs = float_of_str_def py_strip_def is_space_def read_sign_def py_lower_def
  lower_char_def read_number_def digit_of_def nat_of_digits_def read_exponent_def

lemma float_of_str_90: "float_of_str ''90'' = Inr (Fin 90)"
  by (simp add: float_of_str_def py_strip_def is_space_def read_sign_def py_lower_def
      lower_char_def read_number_def digit_of_def nat_of_digits_def read_exponent_def)

lemma py_replace_90: "py_replace deg_C [] ''90'' = ''90''"
  by (simp add: deg_C_def)

lemma read_engine_temp_absent:
  "map_of d0 ''engineTemp'' = None \<Longrightarrow> read_engine_temp d0 = Inr (Fin 90)"
  by (simp add: read_engine_temp_def dict_get_def py_replace_90 float_of_str_90
      del: py_replace.simps)


lemma tire_default:
  "py_lt (dict_get d0 ''tirePressure'' (VInt 32)) 30 = py_lt (dict_get d0 ''tirePressure'' (VInt 30)) 30"
  by (cases "map_of d0 ''tirePressure''") (simp_all add: dict_get_def py_lt_def num_of_def)

lemma compute_component_health_Inr:
  assumes "compute_component_health d0 et = Inr ch"
  obtains bv bat br low where
    "py_float (dict_get d0 ''batteryVoltage'' (VFloat 12.6)) = Inr bv"
    "py_int (fl_mul (fl_div bv 12.6) 100) = Inr bat"
    "calculate_brake_health (dict_get d0 ''vibration'' VNone) = Inr br"
    "py_lt (dict_get d0 ''tirePressure'' (VInt 30)) 30 = Inr low"
    "ch = \<lparr>engineHealth = fl_max0 (fl_rsub 100 (fl_mul (fl_sub et 90) 2)), battery = bat,
            brakes = br, tirePressure = (if low then ''Low'' else ''Normal'')\<rparr>"
proof -
  from assms obtain bv where 1: "py_float (dict_get d0 ''batteryVoltage'' (VFloat 12.6)) = Inr bv"
    by (cases "py_float (dict_get d0 ''batteryVoltage'' (VFloat 12.6))")
       (simp_all add: compute_component_health_def)
  from assms 1 obtain bat where 2: "py_int (fl_mul (fl_div bv 12.6) 100) = Inr bat"
    by (cases "py_int (fl_mul (fl_div bv 12.6) 100)")
       (simp_all add: compute_component_health_def)
  from assms 1 2 obtain br where 3: "calculate_brake_health (dict_get d0 ''vibration'' VNone) = Inr br"
    by (cases "calculate_brake_health (dict_get d0 ''vibration'' VNone)")
       (simp_all add: compute_component_health_def)
  from assms 1 2 3 obtain low where 4: "py_lt (dict_get d0 ''tirePressure'' (VInt 30)) 30 = Inr low"
    by (cases "py_lt (dict_get d0 ''tirePressure'' (VInt 30)) 30")
       (simp_all add: compute_component_health_def)
  from assms 1 2 3 4 have "ch = \<lparr>engineHealth = fl_max0 (fl_rsub 100 (fl_mul (fl_sub et 90) 2)), battery = bat,
            brakes = br, tirePressure = (if low then ''Low'' else ''Normal'')\<rparr>"
    by (simp add: compute_component_health_def)
  with 1 2 3 4 show thesis by (rule that)
qed





lemma example_engine_temp: "read_engine_temp example_reading = Inr (Fin 105)"
  by (simp add: read_engine_temp_def example_reading_def dict_get_def deg_C_def float_defs)

lemma example_issues: "detect_issues example_reading (Fin 105) = Inr [engine_high, oil_low]"
  by (simp add: detect_issues_def example_reading_def dict_get_def py_lt_def num_of_def)

lemma example_component_health:
  "compute_component_health example_reading (Fin 105) = Inr example_health"
  by (simp add: compute_component_health_def example_reading_def dict_get_def py_lt_def
      num_of_def py_float_def fl_max0_def trunc_def example_health_def)

lemma example_overall: "compute_overall_health example_health = Inr 86"
  by (simp add: compute_overall_health_def example_health_def trunc_def)

lemma run_example:
  "store_up e \<Longrightarrow> run_maintenance e example_request d =
     Inr (Report (report_for [engine_high, oil_low] 86),
          persisted (utcnow e) example_reading [engine_high, oil_low] example_health 86 d)"
  by (simp add: run_maintenance_def example_request_def process_telemetry_eq
      example_engine_temp example_issues example_component_health example_overall)
    (simp add: example_reading_def dict_has_def telemetry_keys_def)

lemma run_example_fresh:
  "run_maintenance ex_env example_request fresh_db =
     Inr (Report (report_for [engine_high, oil_low] 86), example_db)"
  using run_example [of ex_env fresh_db] by (simp add: ex_env_def example_db_def)


lemma snapshot_count_persisted:
  "snapshot_count (persisted now d0 iss ch ov d) = max 1 (snapshot_count d)"
  by (simp add: snapshot_count_def persisted_def filter_replace_first snapshot_for_fields)

lemma stored_history_persisted:
  "stored_history (persisted now d0 iss ch ov d)
     = stored_history d @ [\<lparr>timestamp = now, h_telemetry = with_id d0, h_issues = iss\<rparr>]"
  by (simp add: stored_history_def stored_snapshot_persisted snapshot_for_fields)

lemma report_for_fields:
  "r_issues (report_for iss ov) = iss" "anomalies (report_for iss ov) = iss"
  "health_score (report_for iss ov) = ov"
  "r_diagnosis_summary (report_for iss ov) = diagnosis_text_of iss"
  "customer_message (report_for iss ov) = customer_message_of iss"
  "schedule (report_for iss ov) = schedule_text_of iss"
  "r_feedback (report_for iss ov) = feedback_of iss"
  by (simp_all add: report_for_def)

lemma snapshot_for_texts:
  "diagnosis_summary (snapshot_for now d0 iss ch ov hist) = diagnosis_text_of iss"
  "customer_friendly_message (snapshot_for now d0 iss ch ov hist) = customer_message_of iss"
  "predicted_schedule (snapshot_for now d0 iss ch ov hist) = schedule_text_of iss"
  "feedback (snapshot_for now d0 iss ch ov hist) = feedback_of iss"
  "last_updated (snapshot_for now d0 iss ch ov hist) = now"
  by (simp_all add: snapshot_for_def)

lemma run_step:
  assumes "run_maintenance e req d = Inr (Report r, d')"
  shows "snapshot_count d' = max 1 (snapshot_count d)"
    and "stored_history d' = stored_history d @ [entry_of (e, req) r]"
    and "\<exists>doc. stored_snapshot d' = Some doc \<and> reflects doc (e, req) r"
proof -
  from assms obtain d0 rest et ch where
    dr: "data req = d0 # rest"
    and et: "read_engine_temp d0 = Inr et"
    and cc: "compute_component_health d0 et = Inr ch"
    and r: "r = report_for (r_issues r) (health_score r)"
    and d': "d' = persisted (utcnow e) d0 (r_issues r) ch (health_score r) d"
    by (rule run_maintenance_Report)
  show "snapshot_count d' = max 1 (snapshot_count d)"
    unfolding d' by (rule snapshot_count_persisted)
  show "stored_history d' = stored_history d @ [entry_of (e, req) r]"
    unfolding d' by (simp add: stored_history_persisted entry_of_def reading_of_def dr)
  let ?doc = "snapshot_for (utcnow e) d0 (r_issues r) ch (health_score r) (stored_history d)"
  have "stored_snapshot d' = Some ?doc"
    unfolding d' by (rule stored_snapshot_persisted)
  moreover have "reflects ?doc (e, req) r"
  proof -
    have texts: "r_diagnosis_summary r = diagnosis_text_of (r_issues r)"
      "customer_message r = customer_message_of (r_issues r)"
      "schedule r = schedule_text_of (r_issues r)"
      "r_feedback r = feedback_of (r_issues r)"
      using r by (metis report_for_fields(4), metis report_for_fields(5),
          metis report_for_fields(6), metis report_for_fields(7))
    show ?thesis
      unfolding reflects_def
      by (simp add: snapshot_for_fields snapshot_for_texts texts reading_of_def dr
          read_engine_temp_id compute_component_health_id et cc)
  qed
  ultimately show "\<exists>doc. stored_snapshot d' = Some doc \<and> reflects doc (e, req) r"
    by blast
qed

lemma evaluations_Cons:
  assumes "evaluations ((e, req) # cs) d = Some (rs, d')"
  obtains r d1 rs' where "run_maintenance e req d = Inr (Report r, d1)"
    "evaluations cs d1 = Some (rs', d')" "rs = r # rs'"
  using assms by (auto split: sum.splits response.splits option.splits prod.splits)

lemma evaluations_inv:
  assumes "evaluations cs d = Some (rs, d')"
  shows "length rs = length cs
     \<and> snapshot_count d' = (if cs = [] then snapshot_count d else max 1 (snapshot_count d))
     \<and> stored_history d' = stored_history d @ map (\<lambda>(c, r). entry_of c r) (zip cs rs)
     \<and> (cs \<noteq> [] \<longrightarrow> (\<exists>doc. stored_snapshot d' = Some doc \<and> reflects doc (last cs) (last rs)))"
  using assms
proof (induction cs arbitrary: d rs)
  case Nil
  then show ?case by simp
next
  case (Cons c cs)
  obtain e req where c: "c = (e, req)" by (cases c)
  from Cons.prems obtain r d1 rs' where
    run: "run_maintenance e req d = Inr (Report r, d1)"
    and rest: "evaluations cs d1 = Some (rs', d')" and rs: "rs = r # rs'"
    unfolding c by (rule evaluations_Cons)
  note ih = Cons.IH [OF rest]
  note st = run_step [OF run]
  from ih have len: "length rs' = length cs" by simp
  show ?case
  proof (cases "cs = []")
    case True
    with rest have "rs' = []" "d' = d1" by simp_all
    with True st show ?thesis by (simp add: c rs)
  next
    case False
    then have "rs' \<noteq> []" using len by auto
    with False ih st show ?thesis by (simp add: c rs)
  qed
qed

lemma evaluations_take:
  assumes "evaluations cs d = Some (rs, d')"
  shows "\<exists>dn. evaluations (take n cs) d = Some (take n rs, dn)"
  using assms
proof (induction cs arbitrary: d rs n)
  case Nil
  then show ?case by simp
next
  case (Cons c cs)
  obtain e req where c: "c = (e, req)" by (cases c)
  from Cons.prems obtain r d1 rs' where
    run: "run_maintenance e req d = Inr (Report r, d1)"
    and rest: "evaluations cs d1 = Some (rs', d')" and rs: "rs = r # rs'"
    unfolding c by (rule evaluations_Cons)
  show ?case
  proof (cases n)
    case 0
    then show ?thesis by simp
  next
    case (Suc m)
    from Cons.IH [OF rest, of m] obtain dn where
      "evaluations (take m cs) d1 = Some (take m rs', dn)" by blast
    then show ?thesis by (simp add: Suc c rs run)
  qed
qed

lemma run_example_later:
  "run_maintenance later_env example_request example_db =
     Inr (Report (report_for [engine_high, oil_low] 86), second_db)"
  unfolding second_db_def by (rule run_example) (simp add: later_env_def ex_env_def)

lemma evaluations_twice:
  "evaluations [(ex_env, example_request), (later_env, example_request)] fresh_db =
     Some ([report_for [engine_high, oil_low] 86, report_for [engine_high, oil_low] 86],
           second_db)"
  by (simp add: run_example_fresh run_example_later)

lemma appointments_persisted:
  "appointment_collection (persisted now d0 iss ch ov d)
     = appointment_collection d @
       (if iss \<noteq> [] \<and> \<not> list_ex pending_slot (appointment_collection d)
        then [appointment_for now iss (next_oid d)] else [])"
  by (simp add: persisted_def books_def)

lemma appointment_for_fields:
  "pending_slot (appointment_for now iss n)" "at_slot (appointment_for now iss n)"
  "ai_pending (appointment_for now iss n)"
  "date (appointment_for now iss n) = ''Tomorrow''"
  "time (appointment_for now iss n) = ''10:00 AM''"
  "status (appointment_for now iss n) = ''Pending''"
  by (simp_all add: appointment_for_def pending_slot_def at_slot_def ai_pending_def)

lemma list_ex_filter: "list_ex P xs \<longleftrightarrow> filter P xs \<noteq> []"
  by (induction xs) auto

lemma pending_count_persisted:
  "pending_count (persisted now d0 iss ch ov d)
     = (if iss \<noteq> [] \<and> pending_count d = 0 then 1 else pending_count d)"
  by (simp add: pending_count_def appointments_persisted appointment_for_fields list_ex_filter)

lemma fresh_db_fields:
  "workflow_collection fresh_db = []" "appointment_collection fresh_db = []" "next_oid fresh_db = 0"
  by (simp_all add: fresh_db_def)

lemma update_first_list_all:
  "update_first P f xs = Some ys \<Longrightarrow> list_all Q xs \<Longrightarrow> (\<And>x. Q x \<Longrightarrow> Q (f x)) \<Longrightarrow> list_all Q ys"
  by (induction xs arbitrary: ys) (auto split: if_splits)

lemma update_first_filter_le:
  "update_first P f xs = Some ys \<Longrightarrow> (\<And>x. R (f x) \<Longrightarrow> R x)
     \<Longrightarrow> length (filter R ys) \<le> length (filter R xs)"
  by (induction xs arbitrary: ys) (auto split: if_splits)

lemma run_maintenance_Reply:
  assumes "run_maintenance e req d = Inr (Reply m, d')"
  shows "d' = d"
proof -
  from assms obtain d0 rest where dr: "data req = d0 # rest"
    by (cases "data req") (auto simp: run_maintenance_def)
  have "process_telemetry e d0 d \<noteq> Inr (Reply m, d')"
    by (auto simp: process_telemetry_eq bind_eq_Inr split: if_splits)
  with assms dr have "answer_query e d0 d = Inr (Reply m, d')"
    by (auto simp: run_maintenance_def split: if_splits)
  from answer_query_Reply [OF this] show ?thesis by simp
qed

lemma at_slot_pending: "at_slot a \<Longrightarrow> pending_slot a = ai_pending a"
  by (auto simp: at_slot_def pending_slot_def ai_pending_def)

lemma filter_at_slot:
  "list_all at_slot xs \<Longrightarrow> filter pending_slot xs = filter ai_pending xs"
  by (induction xs) (auto simp: at_slot_pending)

lemma slot_inv_persisted:
  assumes "slot_inv d"
  shows "slot_inv (persisted now d0 iss ch ov d)"
proof -
  from assms have all: "list_all at_slot (appointment_collection d)"
    and cnt: "length (filter ai_pending (appointment_collection d)) \<le> 1"
    by (simp_all add: slot_inv_def ai_pending_count_def)
  from filter_at_slot [OF all]
  have ex: "list_ex pending_slot (appointment_collection d)
          \<longleftrightarrow> filter ai_pending (appointment_collection d) \<noteq> []"
    by (simp add: list_ex_filter)
  show ?thesis
    using all cnt
    by (simp add: slot_inv_def ai_pending_count_def appointments_persisted ex
        appointment_for_fields)
qed

lemma slot_inv_run:
  assumes "slot_inv d"
  shows "slot_inv (step e (RunMaintenance req) d)"
proof (cases "run_maintenance e req d")
  case (Inl err)
  with assms show ?thesis by (simp add: step_def)
next
  case (Inr p)
  obtain resp d' where p: "p = (resp, d')" by (cases p)
  show ?thesis
  proof (cases resp)
    case (Reply m)
    with Inr p have "d' = d" using run_maintenance_Reply by blast
    with Inr p assms show ?thesis by (simp add: step_def)
  next
    case (Report r)
    with Inr p obtain d0 ch where
      "d' = persisted (utcnow e) d0 (r_issues r) ch (health_score r) d"
      using run_maintenance_Report [of e req d r d'] by metis
    with Inr p assms show ?thesis by (simp add: step_def slot_inv_persisted)
  qed
qed

lemma slot_inv_update:
  assumes "slot_inv d" and "st \<noteq> ''Pending''"
  shows "slot_inv (step e (UpdateStatus i st) d)"
proof (cases "update_appointment_status e i st d")
  case (Inl err)
  with assms show ?thesis by (simp add: step_def)
next
  case (Inr p)
  obtain msg d' where p: "p = (msg, d')" by (cases p)
  let ?f = "\<lambda>a. a\<lparr>status := st, updated_at := Some (utcnow e)\<rparr>"
  from Inr p obtain n ys where
    ys: "update_first (\<lambda>a. oid a = n) ?f (appointment_collection d) = Some ys"
    and d': "d' = d\<lparr>appointment_collection := ys\<rparr>"
    by (auto simp: update_appointment_status_def bind_eq_Inr split: if_splits option.splits)
  from assms(1) have all: "list_all at_slot (appointment_collection d)"
    and cnt: "length (filter ai_pending (appointment_collection d)) \<le> 1"
    by (simp_all add: slot_inv_def ai_pending_count_def)
  have 1: "list_all at_slot ys"
    by (rule update_first_list_all [OF ys all]) (simp add: at_slot_def)
  have 2: "length (filter ai_pending ys) \<le> length (filter ai_pending (appointment_collection d))"
    by (rule update_first_filter_le [OF ys]) (use assms(2) in \<open>simp add: ai_pending_def\<close>)
  from 1 2 cnt Inr p show ?thesis
    by (simp add: step_def d' slot_inv_def ai_pending_count_def)
qed

lemma slot_inv_serve:
  assumes "slot_inv d" and "\<not> list_ex sets_pending cs"
  shows "slot_inv (serve cs d)"
  using assms
proof (induction cs arbitrary: d)
  case Nil
  then show ?case by simp
next
  case (Cons c cs)
  obtain e cl where c: "c = (e, cl)" by (cases c)
  from Cons.prems(2) have np: "\<not> sets_pending (e, cl)" and rest: "\<not> list_ex sets_pending cs"
    by (simp_all add: c)
  have "slot_inv (step e cl d)"
  proof (cases cl)
    case (RunMaintenance req)
    with Cons.prems(1) show ?thesis by (simp add: slot_inv_run)
  next
    case (UpdateStatus i st)
    with np have "st \<noteq> ''Pending''" by (simp add: sets_pending_def)
    with Cons.prems(1) UpdateStatus show ?thesis by (simp add: slot_inv_update)
  qed
  from Cons.IH [OF this rest] show ?case by (simp add: c)
qed

lemma created_appointments:
  assumes "run_maintenance e req d0 = Inr (resp, d1)"
  shows "\<exists>new. appointment_collection d1 = appointment_collection d0 @ new
     \<and> list_all (\<lambda>a. date a = ''Tomorrow'' \<and> time a = ''10:00 AM'') new"
proof (cases resp)
  case (Reply m)
  with assms have "d1 = d0" using run_maintenance_Reply by blast
  then show ?thesis by simp
next
  case (Report r)
  with assms obtain dd ch where
    "d1 = persisted (utcnow e) dd (r_issues r) ch (health_score r) d0"
    using run_maintenance_Report [of e req d0 r d1] by metis
  then show ?thesis by (simp add: appointments_persisted appointment_for_fields)
qed

lemma object_id_zero: "object_id ''000000000000000000000000'' = Inr 0"
  by (simp add: object_id_def hex_of_def)

lemma example_db_appointments:
  "appointment_collection example_db = [appointment_for ex_time [engine_high, oil_low] 0]"
  "next_oid example_db = 1"
  by (simp_all add: example_db_def persisted_def books_def fresh_db_fields)

lemma serve_reopen:
  "appointment_collection (serve reopen_calls fresh_db)
     = [(appointment_for ex_time [engine_high, oil_low] 0)
          \<lparr>status := ''Pending'', updated_at := Some (utcnow later_env)\<rparr>,
        appointment_for (utcnow later_env) [engine_high, oil_low] 1]"
proof -
  let ?a = "appointment_for ex_time [engine_high, oil_low] 0"
  let ?d2 = "example_db\<lparr>appointment_collection :=
               [?a\<lparr>status := ''In Progress'', updated_at := Some (utcnow ex_env)\<rparr>]\<rparr>"
  let ?d3 = "persisted (utcnow later_env) example_reading [engine_high, oil_low] example_health 86 ?d2"
  have up: "store_up ex_env" "store_up later_env"
    by (simp_all add: ex_env_def later_env_def)
  have oid: "oid ?a = 0"
    by (simp add: appointment_for_def)
  have s1: "step ex_env (RunMaintenance example_request) fresh_db = example_db"
    by (simp add: step_def run_example_fresh)
  have s2: "step ex_env (UpdateStatus ''000000000000000000000000'' ''In Progress'') example_db = ?d2"
    by (simp add: step_def update_appointment_status_def object_id_zero up
        example_db_appointments oid)
  have s3: "step later_env (RunMaintenance example_request) ?d2 = ?d3"
    by (simp add: step_def run_example [OF up(2)])
  have a3: "appointment_collection ?d3
      = [?a\<lparr>status := ''In Progress'', updated_at := Some (utcnow ex_env)\<rparr>,
         appointment_for (utcnow later_env) [engine_high, oil_low] 1]"
    by (simp add: appointments_persisted example_db_appointments pending_slot_def
        appointment_for_def)
  have s4: "appointment_collection
       (step later_env (UpdateStatus ''000000000000000000000000'' ''Pending'') ?d3)
      = [?a\<lparr>status := ''Pending'', updated_at := Some (utcnow later_env)\<rparr>,
         appointment_for (utcnow later_env) [engine_high, oil_low] 1]"
    by (simp add: step_def update_appointment_status_def object_id_zero up a3 oid)
  show ?thesis
    unfolding reopen_calls_def serve.simps s1 s2 s3 by (rule s4)
qed

lemma find_one_workflow_up:
  "store_up e \<Longrightarrow> find_one_workflow e d FIXED_VEHICLE_ID = Inr (stored_snapshot d)"
  by (simp add: find_one_workflow_def stored_snapshot_def)

lemma find_one_workflow_down:
  "\<not> store_up e \<Longrightarrow> find_one_workflow e d FIXED_VEHICLE_ID = Inl StoreFailure"
  by (simp add: find_one_workflow_def)


lemma series_loop_Inr:
  assumes "series_loop e key hs acc = Inr vals"
  shows "\<exists>new. vals = acc @ new
     \<and> list_all2
          (\<lambda>p h. p_time p = strftime_HM (timestamp h)
                 \<and> (\<exists>v. map_of (h_telemetry h) key = Some v \<and> series_value e v = Inr (p_value p)))
          new (filter (\<lambda>h. dict_has (h_telemetry h) key) hs)"
  using assms
proof (induction hs arbitrary: acc vals)
  case Nil
  then show ?case by simp
next
  case (Cons h hs)
  show ?case
  proof (cases "map_of (h_telemetry h) key")
    case None
    with Cons.prems have "series_loop e key hs acc = Inr vals" by simp
    from Cons.IH [OF this] None show ?thesis by (simp add: dict_has_def)
  next
    case (Some v)
    with Cons.prems obtain x where x: "series_value e v = Inr x"
      and rest: "series_loop e key hs (acc @ [\<lparr>p_time = strftime_HM (timestamp h), p_value = x\<rparr>])
                   = Inr vals"
      by (auto simp: bind_eq_Inr)
    from Cons.IH [OF rest] obtain new where
      new: "vals = (acc @ [\<lparr>p_time = strftime_HM (timestamp h), p_value = x\<rparr>]) @ new"
      "list_all2
          (\<lambda>p h. p_time p = strftime_HM (timestamp h)
                 \<and> (\<exists>v. map_of (h_telemetry h) key = Some v \<and> series_value e v = Inr (p_value p)))
          new (filter (\<lambda>h. dict_has (h_telemetry h) key) hs)"
      by blast
    show ?thesis
      apply (rule exI [of _ "\<lparr>p_time = strftime_HM (timestamp h), p_value = x\<rparr> # new"])
      using new Some x by (simp add: dict_has_def)
  qed
qed

lemma build_series_Inr:
  assumes "build_series e hist key rng = Inr s"
  shows "series_of e key rng hist s"
proof -
  from assms obtain vals where
    "series_loop e key (last_n 24 hist) [] = Inr vals" "s_values s = vals" "safe_range s = rng"
    by (auto simp: build_series_def bind_eq_Inr)
  with series_loop_Inr [of e key "last_n 24 hist" "[]" vals] show ?thesis
    by (auto simp: series_of_def)
qed

lemma violations_loop_eq: "violations_loop is acc = acc @ map violation_of is"
  by (induction "is" arbitrary: acc) simp_all

lemma timeline_loop_eq:
  "timeline_loop hs acc
     = acc @ map (\<lambda>h. timeline_entry_of h (hd (h_issues h))) (filter (\<lambda>h. h_issues h \<noteq> []) hs)"
  by (induction hs arbitrary: acc) (simp_all split: list.splits)

lemma length_last_n: "length (last_n n xs) \<le> n"
  by (simp add: last_n_def)

lemma run_quiet:
  assumes "store_up e"
  shows "run_maintenance e quiet_request d =
     Inr (Report (report_for [] 93), persisted (utcnow e) [] [] quiet_health 93 d)"
proof -
  have 1: "read_engine_temp [] = Inr (Fin 90)"
    by (simp add: read_engine_temp_absent)
  have 2: "detect_issues [] (Fin 90) = Inr []"
    by (simp add: detect_issues_def dict_get_def py_lt_def num_of_def)
  have 3: "compute_component_health [] (Fin 90) = Inr quiet_health"
    by (simp add: compute_component_health_def dict_get_def py_lt_def
      num_of_def py_float_def fl_max0_def trunc_def quiet_health_def)
  have 4: "compute_overall_health quiet_health = Inr 93"
    by (simp add: compute_overall_health_def quiet_health_def trunc_def)
  show ?thesis
    using assms
    by (simp add: run_maintenance_def quiet_request_def process_telemetry_eq 1 2 3 4 dict_has_def)
qed

lemma stored_history_fresh: "stored_history fresh_db = []"
  by (simp add: stored_history_def stored_snapshot_def fresh_db_fields)

lemma stored_history_example: "stored_history example_db = [example_entry]"
  by (simp add: example_db_def stored_history_persisted stored_history_fresh example_entry_def)

lemma step_quiet:
  "step later_env (RunMaintenance quiet_request) d
     = persisted (utcnow later_env) [] [] quiet_health 93 d"
  by (simp add: step_def run_quiet later_env_def ex_env_def)

lemma serve_append: "serve (cs @ cs') d = serve cs' (serve cs d)"
  by (induction cs arbitrary: d) auto

lemma replicate_snoc: "replicate (Suc n) x = replicate n x @ [x]"
  by (simp add: replicate_append_same)

lemma aged_db_snapshot:
  "stored_snapshot aged_db
     = Some (snapshot_for (utcnow later_env) [] [] quiet_health 93
               (example_entry # replicate 5 quiet_entry))"
proof -
  let ?c = "(later_env, RunMaintenance quiet_request)"
  have hist: "stored_history (serve (replicate n ?c) d) = stored_history d @ replicate n quiet_entry"
    for n d
  proof (induction n arbitrary: d)
    case 0
    then show ?case by simp
  next
    case (Suc n)
    show ?case
      unfolding replicate_snoc serve_append
      by (simp add: step_quiet stored_history_persisted Suc quiet_entry_def)
  qed
  have s1: "step ex_env (RunMaintenance example_request) fresh_db = example_db"
    by (simp add: step_def run_example_fresh)
  have "aged_db = serve (replicate 5 ?c @ [?c]) example_db"
    unfolding aged_db_def by (simp add: s1 eval_nat_numeral replicate_append_same)
  also have "\<dots> = persisted (utcnow later_env) [] [] quiet_health 93
                    (serve (replicate 5 ?c) example_db)"
    unfolding serve_append by (simp add: step_quiet)
  finally have eq: "aged_db = persisted (utcnow later_env) [] [] quiet_health 93
                    (serve (replicate 5 ?c) example_db)" .
  show ?thesis
    unfolding eq stored_snapshot_persisted hist stored_history_example by simp
qed

lemmas parse_defs = float_defs deg_C_def show_int_def digit_char_def

lemma aged_db_analytics:
  "\<exists>a. get_full_analytics ex_env aged_db = Inr a \<and> timeline a = []"
proof -
  have up: "store_up ex_env" by (simp add: ex_env_def)
  have hist: "history (snapshot_for (utcnow later_env) [] [] quiet_health 93
               (example_entry # replicate 5 quiet_entry))
      = [example_entry, quiet_entry, quiet_entry, quiet_entry, quiet_entry, quiet_entry, quiet_entry]"
    by (simp add: snapshot_for_fields eval_nat_numeral quiet_entry_def)
  have q: "map_of (h_telemetry quiet_entry) k = (if k = ''id'' then Some (VStr FIXED_VEHICLE_ID) else None)" for k
    by (simp add: quiet_entry_def with_id_def)
  have ex: "map_of (h_telemetry example_entry) ''engineTemp'' = Some (VStr (''105'' @ deg_C))"
    "map_of (h_telemetry example_entry) ''oilPressure'' = Some (VInt 15)"
    "map_of (h_telemetry example_entry) ''batteryVoltage'' = Some (VFloat 12.6)"
    "map_of (h_telemetry example_entry) ''tirePressure'' = Some (VInt 32)"
    by (simp_all add: example_entry_def with_id_def example_reading_def)
  have v: "series_value ex_env (VStr (CHR ''1'' # CHR ''0'' # CHR ''5'' # deg_C)) = Inr (Fin 105)"
    "series_value ex_env (VInt 15) = Inr (Fin 15)"
    "\<And>r. series_value ex_env (VFloat r) = Inr (Fin r)"
    "series_value ex_env (VInt 32) = Inr (Fin 32)"
    by (simp_all add: series_value_def parse_defs)
  let ?H = "[example_entry, quiet_entry, quiet_entry, quiet_entry, quiet_entry, quiet_entry,
             quiet_entry]"
  let ?Q = "[quiet_entry, quiet_entry, quiet_entry, quiet_entry, quiet_entry, quiet_entry]"
  have l24: "last_n 24 ?H = ?H" and l6: "last_n 6 ?H = ?Q"
    by (simp_all add: last_n_def)
  have qi: "h_issues quiet_entry = []"
    by (simp add: quiet_entry_def)
  have b1: "\<exists>s. build_series ex_env ?H ''engineTemp'' (70, 95) = Inr s"
    unfolding build_series_def l24 by (simp add: q ex v del: title_from.simps)
  have b2: "\<exists>s. build_series ex_env ?H ''oilPressure'' (25, 65) = Inr s"
    unfolding build_series_def l24 by (simp add: q ex v del: title_from.simps)
  have b3: "\<exists>s. build_series ex_env ?H ''batteryVoltage'' (12, 14) = Inr s"
    unfolding build_series_def l24 by (simp add: q ex v del: title_from.simps)
  have b4: "\<exists>s. build_series ex_env ?H ''tirePressure'' (32, 36) = Inr s"
    unfolding build_series_def l24 by (simp add: q ex v del: title_from.simps)
  from b1 b2 b3 b4 obtain s1 s2 s3 s4 where
    s: "build_series ex_env ?H ''engineTemp'' (70, 95) = Inr s1"
       "build_series ex_env ?H ''oilPressure'' (25, 65) = Inr s2"
       "build_series ex_env ?H ''batteryVoltage'' (12, 14) = Inr s3"
       "build_series ex_env ?H ''tirePressure'' (32, 36) = Inr s4"
    by blast
  show ?thesis
    unfolding get_full_analytics_def find_one_workflow_up [OF up] aged_db_snapshot
    by (simp add: hist s l6 qi)
qed

lemma example_db_snapshot:
  "stored_snapshot example_db
     = Some (snapshot_for ex_time example_reading [engine_high, oil_low] example_health 86 [])"
  by (simp add: example_db_def stored_snapshot_persisted stored_history_fresh)

lemma example_db_analytics: "\<exists>a. get_full_analytics ex_env example_db = Inr a"
proof -
  have up: "store_up ex_env" by (simp add: ex_env_def)
  have hist: "history (snapshot_for ex_time example_reading [engine_high, oil_low] example_health
                 86 []) = [example_entry]"
    by (simp add: snapshot_for_fields example_entry_def)
  have ex: "map_of (h_telemetry example_entry) ''engineTemp'' = Some (VStr (''105'' @ deg_C))"
    "map_of (h_telemetry example_entry) ''oilPressure'' = Some (VInt 15)"
    "map_of (h_telemetry example_entry) ''batteryVoltage'' = Some (VFloat 12.6)"
    "map_of (h_telemetry example_entry) ''tirePressure'' = Some (VInt 32)"
    by (simp_all add: example_entry_def with_id_def example_reading_def)
  have v: "series_value ex_env (VStr (CHR ''1'' # CHR ''0'' # CHR ''5'' # deg_C)) = Inr (Fin 105)"
    "series_value ex_env (VInt 15) = Inr (Fin 15)"
    "\<And>r. series_value ex_env (VFloat r) = Inr (Fin r)"
    "series_value ex_env (VInt 32) = Inr (Fin 32)"
    by (simp_all add: series_value_def parse_defs)
  have l24: "last_n 24 [example_entry] = [example_entry]"
    by (simp add: last_n_def)
  have b1: "\<exists>s. build_series ex_env [example_entry] ''engineTemp'' (70, 95) = Inr s"
    unfolding build_series_def l24 by (simp add: ex v del: title_from.simps)
  have b2: "\<exists>s. build_series ex_env [example_entry] ''oilPressure'' (25, 65) = Inr s"
    unfolding build_series_def l24 by (simp add: ex v del: title_from.simps)
  have b3: "\<exists>s. build_series ex_env [example_entry] ''batteryVoltage'' (12, 14) = Inr s"
    unfolding build_series_def l24 by (simp add: ex v del: title_from.simps)
  have b4: "\<exists>s. build_series ex_env [example_entry] ''tirePressure'' (32, 36) = Inr s"
    unfolding build_series_def l24 by (simp add: ex v del: title_from.simps)
  from b1 b2 b3 b4 obtain s1 s2 s3 s4 where
    s: "build_series ex_env [example_entry] ''engineTemp'' (70, 95) = Inr s1"
       "build_series ex_env [example_entry] ''oilPressure'' (25, 65) = Inr s2"
       "build_series ex_env [example_entry] ''batteryVoltage'' (12, 14) = Inr s3"
       "build_series ex_env [example_entry] ''tirePressure'' (32, 36) = Inr s4"
    by blast
  show ?thesis
    unfolding get_full_analytics_def find_one_workflow_up [OF up] example_db_snapshot
    by (simp add: hist s)
qed

lemma aged_db_history:
  "stored_history aged_db
     = [example_entry, quiet_entry, quiet_entry, quiet_entry, quiet_entry, quiet_entry,
        quiet_entry]"
  by (simp add: stored_history_def aged_db_snapshot snapshot_for_fields eval_nat_numeral
      quiet_entry_def)


lemma second_db_fields:
  "snapshot_count second_db = 1"
  "stored_history second_db
     = [example_entry, example_entry\<lparr>timestamp := utcnow later_env\<rparr>]"
  "appointment_collection second_db = [appointment_for ex_time [engine_high, oil_low] 0]"
proof -
  have "snapshot_count fresh_db = 0"
    by (simp add: snapshot_count_def fresh_db_fields)
  then have "snapshot_count example_db = 1"
    by (simp add: example_db_def snapshot_count_persisted)
  then show "snapshot_count second_db = 1"
    by (simp add: second_db_def snapshot_count_persisted)
  show "stored_history second_db
     = [example_entry, example_entry\<lparr>timestamp := utcnow later_env\<rparr>]"
    by (simp add: second_db_def stored_history_persisted stored_history_example
        example_entry_def)
  show "appointment_collection second_db = [appointment_for ex_time [engine_high, oil_low] 0]"
    by (simp add: second_db_def appointments_persisted example_db_appointments
        appointment_for_fields)
qed

section \<open>The claims\<close>

subsection \<open>C1: the engine temperature rule\<close>



subsection \<open>C2: the battery and overall scores\<close>




subsection \<open>C3: the worked example\<close>

text \<open>
  C3. On the reading with engine temperature "105" and the unit, oil pressure 15, battery
  voltage 12.6 and tire pressure 32, \<^verbatim>\<open>run_maintenance\<close> returns exactly the two issues
  "Engine Temperature High" and "Oil Pressure Low", in that order, and stores engine health
  70, battery 100, brakes 75 (the reading has no vibration), the tire label "Normal" and the
  overall score 86, which it also returns.
\<close>

theorem worked_example:
  assumes "store_up e"
  shows "\<exists>r d' doc. run_maintenance e example_request d = Inr (Report r, d')
      \<and> r_issues r = [engine_high, oil_low]
      \<and> map name (r_issues r) = [''Engine Temperature High'', ''Oil Pressure Low'']
      \<and> health_score r = 86
      \<and> stored_snapshot d' = Some doc
      \<and> issues doc = [engine_high, oil_low]
      \<and> engineHealth (component_health doc) = Fin 70
      \<and> battery (component_health doc) = 100
      \<and> brakes (component_health doc) = 75
      \<and> tirePressure (component_health doc) = ''Normal''
      \<and> overall_health_score doc = 86
      \<and> map_of example_reading ''vibration'' = None"
proof -
  let ?r = "report_for [engine_high, oil_low] 86"
  let ?d' = "persisted (utcnow e) example_reading [engine_high, oil_low] example_health 86 d"
  let ?doc = "snapshot_for (utcnow e) example_reading [engine_high, oil_low] example_health 86
                (stored_history d)"
  have run: "run_maintenance e example_request d = Inr (Report ?r, ?d')"
    using assms by (rule run_example)
  have doc: "stored_snapshot ?d' = Some ?doc"
    by (rule stored_snapshot_persisted)
  show ?thesis
    apply (intro exI [of _ ?r] exI [of _ ?d'] exI [of _ ?doc] conjI run doc)
    apply (simp_all add: report_for_def snapshot_for_fields example_health_def
        issue_names_distinct example_reading_def)
    done
qed

theorem worked_example_witness:
  "store_up ex_env \<and> (\<exists>r d' doc. run_maintenance ex_env example_request fresh_db = Inr (Report r, d')
      \<and> r_issues r = [engine_high, oil_low] \<and> health_score r = 86
      \<and> stored_snapshot d' = Some doc \<and> overall_health_score doc = 86)"
proof -
  have up: "store_up ex_env" by (simp add: ex_env_def)
  from worked_example [OF up, of fresh_db] up show ?thesis by blast
qed

subsection \<open>C4: one snapshot, replaced whole, with a growing history\<close>

text \<open>
  C4. Take a database with at most one snapshot for the fixed vehicle and any sequence of
  telemetry evaluations served one after the other. After the sequence, and after each of its
  runs, at most one snapshot exists for the vehicle (exactly one once a run has been served);
  every field of the snapshot other than the history is what the most recent run computed
  from its own reading and clock; and the history is the earlier history followed by one
  entry of time stamp, telemetry and issues per run, in the order of the calls. Two runs
  hence append exactly two entries, the first call first.
\<close>

theorem snapshot_replaced_history_appended:
  assumes "snapshot_count d \<le> 1" and "evaluations cs d = Some (rs, d')"
  shows "length rs = length cs
     \<and> snapshot_count d' \<le> 1 \<and> (cs \<noteq> [] \<longrightarrow> snapshot_count d' = 1)
     \<and> stored_history d' = stored_history d @ map (\<lambda>(c, r). entry_of c r) (zip cs rs)
     \<and> (cs \<noteq> [] \<longrightarrow> (\<exists>doc. stored_snapshot d' = Some doc \<and> reflects doc (last cs) (last rs)))
     \<and> (\<forall>n \<le> length cs. \<exists>dn. evaluations (take n cs) d = Some (take n rs, dn)
            \<and> snapshot_count dn \<le> 1
            \<and> stored_history dn
                = stored_history d @ map (\<lambda>(c, r). entry_of c r) (zip (take n cs) (take n rs)))"
proof -
  note inv = evaluations_inv [OF assms(2)]
  have cnt: "snapshot_count d' \<le> 1" "cs \<noteq> [] \<longrightarrow> snapshot_count d' = 1"
    using inv assms(1) by auto
  have pre: "\<forall>n \<le> length cs. \<exists>dn. evaluations (take n cs) d = Some (take n rs, dn)
            \<and> snapshot_count dn \<le> 1
            \<and> stored_history dn
                = stored_history d @ map (\<lambda>(c, r). entry_of c r) (zip (take n cs) (take n rs))"
  proof (intro allI impI)
    fix n assume "n \<le> length cs"
    from evaluations_take [OF assms(2), of n] obtain dn where
      dn: "evaluations (take n cs) d = Some (take n rs, dn)" by blast
    from evaluations_inv [OF dn] assms(1)
    have "snapshot_count dn \<le> 1" "stored_history dn
                = stored_history d @ map (\<lambda>(c, r). entry_of c r) (zip (take n cs) (take n rs))"
      by (auto split: if_splits)
    with dn show "\<exists>dn. evaluations (take n cs) d = Some (take n rs, dn)
            \<and> snapshot_count dn \<le> 1
            \<and> stored_history dn
                = stored_history d @ map (\<lambda>(c, r). entry_of c r) (zip (take n cs) (take n rs))"
      by blast
  qed
  from inv cnt pre show ?thesis by blast
qed

theorem snapshot_replaced_history_appended_witness:
  "snapshot_count fresh_db \<le> 1
   \<and> evaluations [(ex_env, example_request), (later_env, example_request)] fresh_db =
     Some ([report_for [engine_high, oil_low] 86, report_for [engine_high, oil_low] 86],
           second_db)
   \<and> snapshot_count second_db = 1
   \<and> map timestamp (stored_history second_db) = [ex_time, ex_time\<lparr>minute := 10\<rparr>]"
proof -
  have c0: "snapshot_count fresh_db \<le> 1"
    by (simp add: snapshot_count_def fresh_db_def)
  from snapshot_replaced_history_appended [OF c0 evaluations_twice] c0 evaluations_twice
    stored_history_fresh
  show ?thesis
    by (simp add: entry_of_def later_env_def ex_env_def)
qed

subsection \<open>C5: no duplicate appointment\<close>

text \<open>
  C5. A run of \<^verbatim>\<open>run_maintenance\<close> inserts an appointment exactly when it produced at
  least one issue and the collection holds no pending appointment for the same vehicle, date
  and time; otherwise the collection is left as it is. Hence the same reading, submitted
  twice in immediate succession and producing issues, leaves exactly one such pending
  appointment when at most one existed before, and on a collection without one the two runs
  add the appointment of the first run only.
\<close>

theorem appointment_booked_once:
  assumes "run_maintenance e1 req d = Inr (Report r1, d1)"
    and "run_maintenance e2 req d1 = Inr (Report r2, d2)"
  shows "appointment_collection d1
       = appointment_collection d @
         (if r_issues r1 \<noteq> [] \<and> \<not> list_ex pending_slot (appointment_collection d)
          then [appointment_for (utcnow e1) (r_issues r1) (next_oid d)] else [])
     \<and> (r_issues r1 \<noteq> [] \<and> pending_count d \<le> 1 \<longrightarrow> pending_count d2 = 1)
     \<and> (r_issues r1 \<noteq> [] \<and> pending_count d = 0 \<longrightarrow>
          appointment_collection d2
            = appointment_collection d @ [appointment_for (utcnow e1) (r_issues r1) (next_oid d)])"
proof -
  from assms(1) obtain d0 ch where
    d1: "d1 = persisted (utcnow e1) d0 (r_issues r1) ch (health_score r1) d"
    by (rule run_maintenance_Report)
  from assms(2) obtain d0' ch' where
    d2: "d2 = persisted (utcnow e2) d0' (r_issues r2) ch' (health_score r2) d1"
    by (rule run_maintenance_Report)
  have a: "appointment_collection d1
       = appointment_collection d @
         (if r_issues r1 \<noteq> [] \<and> \<not> list_ex pending_slot (appointment_collection d)
          then [appointment_for (utcnow e1) (r_issues r1) (next_oid d)] else [])"
    unfolding d1 by (rule appointments_persisted)
  have c1: "pending_count d1 = (if r_issues r1 \<noteq> [] \<and> pending_count d = 0 then 1 else pending_count d)"
    unfolding d1 by (rule pending_count_persisted)
  have c2: "pending_count d2 = (if r_issues r2 \<noteq> [] \<and> pending_count d1 = 0 then 1 else pending_count d1)"
    unfolding d2 by (rule pending_count_persisted)
  have b: "r_issues r1 \<noteq> [] \<and> pending_count d \<le> 1 \<longrightarrow> pending_count d2 = 1"
    unfolding c2 c1 by auto
  have c: "r_issues r1 \<noteq> [] \<and> pending_count d = 0 \<longrightarrow>
          appointment_collection d2
            = appointment_collection d @ [appointment_for (utcnow e1) (r_issues r1) (next_oid d)]"
  proof
    assume h: "r_issues r1 \<noteq> [] \<and> pending_count d = 0"
    then have no: "\<not> list_ex pending_slot (appointment_collection d)"
      by (simp add: pending_count_def list_ex_filter)
    with h a have a1: "appointment_collection d1
        = appointment_collection d @ [appointment_for (utcnow e1) (r_issues r1) (next_oid d)]"
      by simp
    then have "list_ex pending_slot (appointment_collection d1)"
      by (simp add: appointment_for_fields)
    then have "appointment_collection d2 = appointment_collection d1"
      unfolding d2 by (simp add: appointments_persisted)
    with a1 show "appointment_collection d2
            = appointment_collection d @ [appointment_for (utcnow e1) (r_issues r1) (next_oid d)]"
      by simp
  qed
  from a b c show ?thesis by blast
qed

theorem appointment_booked_once_witness:
  "run_maintenance ex_env example_request fresh_db
     = Inr (Report (report_for [engine_high, oil_low] 86), example_db)
   \<and> run_maintenance later_env example_request example_db
     = Inr (Report (report_for [engine_high, oil_low] 86), second_db)
   \<and> pending_count fresh_db = 0
   \<and> appointment_collection second_db = [appointment_for ex_time [engine_high, oil_low] 0]
   \<and> pending_count second_db = 1"
proof -
  have p0: "pending_count fresh_db = 0"
    by (simp add: pending_count_def fresh_db_fields)
  from appointment_booked_once [OF run_example_fresh run_example_later] p0
  show ?thesis
    using run_example_fresh run_example_later
    by (simp add: report_for_fields fresh_db_fields ex_env_def)
qed

subsection \<open>C6: free-text questions\<close>



subsection \<open>C7: the dashboard without data\<close>

text \<open>
  C7. \<^verbatim>\<open>GET /dashboard/data\<close> always returns a payload and never an error. For a vehicle
  without a stored snapshot, and also when reading the database fails, the payload is the
  default one: health score 100 and empty telemetry, component health, predicted issues and
  anomalies.
\<close>

theorem dashboard_defaults:
  "(\<exists>payload. get_dashboard_data e d = Inr payload)
   \<and> (store_up e \<and> stored_snapshot d = None \<longrightarrow>
        get_dashboard_data e d = Inr (default_dashboard ''No data available''))
   \<and> (\<not> store_up e \<longrightarrow>
        get_dashboard_data e d = Inr (default_dashboard ''Error fetching data''))
   \<and> d_health_score (default_dashboard msg) = 100
   \<and> d_telemetry (default_dashboard msg) = []
   \<and> d_component_health (default_dashboard msg) = None
   \<and> predicted_issues (default_dashboard msg) = []
   \<and> d_anomalies (default_dashboard msg) = []"
proof -
  have 1: "\<exists>payload. get_dashboard_data e d = Inr payload"
    by (cases "dashboard_body e d") (simp_all add: get_dashboard_data_def)
  have 2: "store_up e \<and> stored_snapshot d = None \<longrightarrow>
        get_dashboard_data e d = Inr (default_dashboard ''No data available'')"
    by (simp add: get_dashboard_data_def dashboard_body_def find_one_workflow_up)
  have 3: "\<not> store_up e \<longrightarrow>
        get_dashboard_data e d = Inr (default_dashboard ''Error fetching data'')"
    by (simp add: get_dashboard_data_def dashboard_body_def find_one_workflow_down)
  have 4: "d_health_score (default_dashboard msg) = 100
   \<and> d_telemetry (default_dashboard msg) = []
   \<and> d_component_health (default_dashboard msg) = None
   \<and> predicted_issues (default_dashboard msg) = []
   \<and> d_anomalies (default_dashboard msg) = []"
    by (simp add: default_dashboard_def)
  from 1 2 3 4 show ?thesis by (intro conjI) simp_all
qed

theorem dashboard_defaults_witness:
  "store_up ex_env \<and> stored_snapshot fresh_db = None
   \<and> get_dashboard_data ex_env fresh_db = Inr (default_dashboard ''No data available'')
   \<and> \<not> store_up down_env
   \<and> get_dashboard_data down_env example_db = Inr (default_dashboard ''Error fetching data'')"
proof -
  have 1: "store_up ex_env" by (simp add: ex_env_def)
  have 2: "stored_snapshot fresh_db = None"
    by (simp add: stored_snapshot_def fresh_db_fields)
  have 3: "\<not> store_up down_env" by (simp add: down_env_def)
  from dashboard_defaults [of ex_env fresh_db] dashboard_defaults [of down_env example_db] 1 2 3
  show ?thesis by simp
qed

subsection \<open>C8: the analytics\<close>

text \<open>
  C8, as amended. When \<^verbatim>\<open>GET /analytics/full\<close> returns for a vehicle with a snapshot, it
  has built for each of the four sensors a series with its fixed safe range and one point
  for each of the last 24 history entries whose telemetry has the key of the sensor, a list
  of violations with one entry for each current issue, and a failure timeline of at most
  six entries: one for each entry among the last six of the history that had issues, not
  six entries drawn from all the history entries that had issues.
\<close>

theorem full_analytics:
  assumes "get_full_analytics e d = Inr a"
  shows "(stored_snapshot d = None \<longrightarrow> sensors a = [] \<and> violations a = [] \<and> timeline a = [])
     \<and> (\<forall>doc. stored_snapshot d = Some doc \<longrightarrow>
          (\<exists>s1 s2 s3 s4.
              sensors a = [(''engine_temperature'', s1), (''oil_pressure'', s2),
                           (''battery_voltage'', s3), (''tire_pressure'', s4)]
            \<and> series_of e ''engineTemp'' (70, 95) (history doc) s1
            \<and> series_of e ''oilPressure'' (25, 65) (history doc) s2
            \<and> series_of e ''batteryVoltage'' (12, 14) (history doc) s3
            \<and> series_of e ''tirePressure'' (32, 36) (history doc) s4)
          \<and> violations a = map violation_of (issues doc)
          \<and> timeline a = map (\<lambda>h. timeline_entry_of h (hd (h_issues h)))
                            (filter (\<lambda>h. h_issues h \<noteq> []) (last_n 6 (history doc)))
          \<and> length (timeline a) \<le> 6)"
proof -
  from assms have up: "store_up e"
    by (cases "store_up e") (simp_all add: get_full_analytics_def find_one_workflow_down)
  show ?thesis
  proof (cases "stored_snapshot d")
    case None
    with assms up show ?thesis
      by (auto simp: get_full_analytics_def find_one_workflow_up)
  next
    case (Some doc)
    with assms up obtain s1 s2 s3 s4 where
      b1: "build_series e (history doc) ''engineTemp'' (70, 95) = Inr s1"
      and b2: "build_series e (history doc) ''oilPressure'' (25, 65) = Inr s2"
      and b3: "build_series e (history doc) ''batteryVoltage'' (12, 14) = Inr s3"
      and b4: "build_series e (history doc) ''tirePressure'' (32, 36) = Inr s4"
      and a: "a = \<lparr>sensors = [(''engine_temperature'', s1), (''oil_pressure'', s2),
                               (''battery_voltage'', s3), (''tire_pressure'', s4)],
                    violations = violations_loop (issues doc) [],
                    timeline = timeline_loop (last_n 6 (history doc)) []\<rparr>"
      by (auto simp: get_full_analytics_def find_one_workflow_up bind_eq_Inr Let_def)
    have len: "length (timeline a) \<le> 6"
      unfolding a using length_last_n [of 6 "history doc"]
      by (simp add: timeline_loop_eq)
        (rule order_trans [OF length_filter_le], assumption)
    have sens: "\<exists>s1 s2 s3 s4.
              sensors a = [(''engine_temperature'', s1), (''oil_pressure'', s2),
                           (''battery_voltage'', s3), (''tire_pressure'', s4)]
            \<and> series_of e ''engineTemp'' (70, 95) (history doc) s1
            \<and> series_of e ''oilPressure'' (25, 65) (history doc) s2
            \<and> series_of e ''batteryVoltage'' (12, 14) (history doc) s3
            \<and> series_of e ''tirePressure'' (32, 36) (history doc) s4"
      apply (rule exI [of _ s1], rule exI [of _ s2], rule exI [of _ s3], rule exI [of _ s4])
      using build_series_Inr [OF b1] build_series_Inr [OF b2] build_series_Inr [OF b3]
        build_series_Inr [OF b4]
      by (simp add: a)
    have rest: "violations a = map violation_of (issues doc)"
      "timeline a = map (\<lambda>h. timeline_entry_of h (hd (h_issues h)))
                            (filter (\<lambda>h. h_issues h \<noteq> []) (last_n 6 (history doc)))"
      by (simp_all add: a violations_loop_eq timeline_loop_eq)
    from Some sens rest len show ?thesis by simp
  qed
qed

theorem full_analytics_witness:
  "\<exists>a. get_full_analytics ex_env example_db = Inr a
     \<and> map stage (timeline a) = [''Engine Temperature High'']
     \<and> map parameter (violations a) = [''Engine Temperature High'', ''Oil Pressure Low'']"
proof -
  from example_db_analytics obtain a where a: "get_full_analytics ex_env example_db = Inr a"
    by blast
  note fa = full_analytics [OF a, THEN conjunct2, rule_format, OF example_db_snapshot]
  have "violations a = map violation_of [engine_high, oil_low]"
    using fa by (simp add: snapshot_for_fields)
  moreover have "timeline a = [timeline_entry_of example_entry engine_high]"
    using fa by (simp add: snapshot_for_fields last_n_def example_entry_def)
  ultimately show ?thesis
    using a by (simp add: violation_of_def timeline_entry_of_def issue_names_distinct)
qed

text \<open>
  The claim as stated promises a timeline of six entries drawn from the history entries that
  had issues. After one run with issues and six runs without, the history has seven entries,
  one of them with issues, and the timeline is empty.
\<close>

theorem failure_timeline_counterexample:
  "map_sum id timeline (get_full_analytics ex_env aged_db) = Inr []
   \<and> length (stored_history aged_db) = 7
   \<and> example_entry \<in> set (stored_history aged_db)
   \<and> h_issues example_entry = [engine_high, oil_low]"
proof -
  from aged_db_analytics obtain a where
    "get_full_analytics ex_env aged_db = Inr a" "timeline a = []"
    by blast
  then show ?thesis
    by (simp add: aged_db_history example_entry_def)
qed

subsection \<open>C9: the tire issue and the tire label\<close>

text \<open>
  C9. For every reading that the evaluation path processes, the returned issues have one
  named "Tire Pressure Low" exactly when the stored tire label is "Low"; the label is
  "Low" or "Normal", and a reading without the field \<^verbatim>\<open>tirePressure\<close> gets "Normal"
  and no such issue, although the two places default the field to 32 and to 30.
\<close>

theorem tire_issue_iff_label_low:
  assumes "run_maintenance e req d = Inr (Report r, d')"
  shows "\<exists>d0 rest doc. data req = d0 # rest \<and> stored_snapshot d' = Some doc
      \<and> ((\<exists>i \<in> set (r_issues r). name i = ''Tire Pressure Low'')
           \<longleftrightarrow> tirePressure (component_health doc) = ''Low'')
      \<and> (tirePressure (component_health doc) \<noteq> ''Low''
           \<longrightarrow> tirePressure (component_health doc) = ''Normal'')
      \<and> (map_of d0 ''tirePressure'' = None
           \<longrightarrow> tirePressure (component_health doc) = ''Normal'')"
proof -
  from assms obtain d0 rest et ch where
    dr: "data req = d0 # rest"
    and di: "detect_issues d0 et = Inr (r_issues r)"
    and cc: "compute_component_health d0 et = Inr ch"
    and d': "d' = persisted (utcnow e) d0 (r_issues r) ch (health_score r) d"
    by (rule run_maintenance_Report)
  from di obtain oil bat tire where
    tire: "py_lt (dict_get d0 ''tirePressure'' (VInt 32)) 30 = Inr tire" and
    iss: "r_issues r = (if fl_gt et 100 then [engine_high] else []) @ (if oil then [oil_low] else [])
          @ (if bat then [battery_low] else []) @ (if tire then [tire_low] else [])"
    by (rule detect_issues_Inr)
  from cc obtain low where
    "py_lt (dict_get d0 ''tirePressure'' (VInt 30)) 30 = Inr low"
    "tirePressure ch = (if low then ''Low'' else ''Normal'')"
    by (rule compute_component_health_Inr) simp
  with tire have lab: "tirePressure ch = (if tire then ''Low'' else ''Normal'')"
    by (simp add: tire_default)
  have doc: "stored_snapshot d' = Some (snapshot_for (utcnow e) d0 (r_issues r) ch (health_score r) (stored_history d))"
    unfolding d' by (rule stored_snapshot_persisted)
  have ch: "component_health (snapshot_for (utcnow e) d0 (r_issues r) ch (health_score r) (stored_history d)) = ch"
    by (simp add: snapshot_for_def)
  have a: "(\<exists>i \<in> set (r_issues r). name i = ''Tire Pressure Low'') \<longleftrightarrow> tirePressure ch = ''Low''"
    unfolding iss lab by (auto simp: issue_names_distinct)
  have b: "tirePressure ch \<noteq> ''Low'' \<longrightarrow> tirePressure ch = ''Normal''"
    unfolding lab by simp
  have c: "map_of d0 ''tirePressure'' = None \<longrightarrow> tirePressure ch = ''Normal''"
  proof
    assume "map_of d0 ''tirePressure'' = None"
    with tire have "\<not> tire" by (simp add: dict_get_def py_lt_def num_of_def)
    then show "tirePressure ch = ''Normal''" unfolding lab by simp
  qed
  let ?doc = "snapshot_for (utcnow e) d0 (r_issues r) ch (health_score r) (stored_history d)"
  show ?thesis
    apply (intro exI [of _ d0] exI [of _ rest] exI [of _ ?doc] conjI dr doc)
    unfolding ch by (rule a b c)+
qed

theorem tire_issue_iff_label_low_witness:
  "run_maintenance ex_env example_request fresh_db
     = Inr (Report (report_for [engine_high, oil_low] 86), example_db)
   \<and> (\<exists>doc. stored_snapshot example_db = Some doc
        \<and> tirePressure (component_health doc) \<noteq> ''Low'')"
proof -
  from tire_issue_iff_label_low [OF run_example_fresh] obtain doc where
    "stored_snapshot example_db = Some doc"
    "(\<exists>i \<in> set (r_issues (report_for [engine_high, oil_low] 86)). name i = ''Tire Pressure Low'')
       \<longleftrightarrow> tirePressure (component_health doc) = ''Low''"
    by blast
  then show ?thesis
    using run_example_fresh by (auto simp: report_for_def issue_names_distinct)
qed

subsection \<open>C10: at most one pending appointment\<close>

text \<open>
  C10, as amended. Every appointment that \<^verbatim>\<open>run_maintenance\<close> creates has the date
  "Tomorrow", the first word of the schedule text, and the time "10:00 AM". Because the
  duplicate check looks for these same constants, a collection of such appointments with at
  most one of them pending keeps at most one pending appointment through every sequence of
  requests served one after the other, whatever the clock says, as long as no status update
  of the sequence sets a status to "Pending".
\<close>

theorem one_pending_appointment:
  assumes "list_all at_slot (appointment_collection d)" and "ai_pending_count d \<le> 1"
    and "\<not> list_ex sets_pending cs"
  shows "ai_pending_count (serve cs d) \<le> 1
     \<and> list_all at_slot (appointment_collection (serve cs d))
     \<and> (\<forall>e req d0 resp d1. run_maintenance e req d0 = Inr (resp, d1) \<longrightarrow>
          (\<exists>new. appointment_collection d1 = appointment_collection d0 @ new
             \<and> list_all (\<lambda>a. date a = ''Tomorrow'' \<and> time a = ''10:00 AM'') new))
     \<and> take 1 (py_split [] ''Tomorrow 10 AM'') = [''Tomorrow'']"
proof -
  from assms(1,2) have "slot_inv d" by (simp add: slot_inv_def)
  from slot_inv_serve [OF this assms(3)]
  have "ai_pending_count (serve cs d) \<le> 1" "list_all at_slot (appointment_collection (serve cs d))"
    by (simp_all add: slot_inv_def)
  moreover have "take 1 (py_split [] ''Tomorrow 10 AM'') = [''Tomorrow'']"
    unfolding py_split_schedule by simp
  ultimately show ?thesis using created_appointments by blast
qed

theorem one_pending_appointment_witness:
  "list_all at_slot (appointment_collection fresh_db) \<and> ai_pending_count fresh_db \<le> 1
   \<and> \<not> list_ex sets_pending progress_calls
   \<and> ai_pending_count (serve progress_calls fresh_db) \<le> 1
   \<and> list_all at_slot (appointment_collection (serve progress_calls fresh_db))"
proof -
  have 1: "list_all at_slot (appointment_collection fresh_db)"
    by (simp add: fresh_db_fields)
  have 2: "ai_pending_count fresh_db \<le> 1"
    by (simp add: ai_pending_count_def fresh_db_fields)
  have 3: "\<not> list_ex sets_pending progress_calls"
    by (simp add: progress_calls_def reopen_calls_def sets_pending_def)
  from one_pending_appointment [OF 1 2 3] 1 2 3 show ?thesis by blast
qed

text \<open>
  The claim as stated, without the condition on status updates, fails: after a run that
  books an appointment, an update that takes it in progress, a second run that books another
  one, and an update that sets the first back to "Pending", two appointments are pending.
\<close>

theorem one_pending_appointment_counterexample:
  "ai_pending_count (serve reopen_calls fresh_db) = 2"
  by (simp add: ai_pending_count_def serve_reopen ai_pending_def appointment_for_def)

end
